theory Spec2Isabelle
  imports Main "HOL-Library.Multiset"
begin

section \<open>JavaScript values\<close>

text \<open>
  The notes page handles values that come out of \<^verbatim>\<open>response.json()\<close> and never checks
  their types, so the model keeps them as JavaScript values. A number is an integer
  (the program only tests numbers for truthiness and identity, and JSON has neither NaN
  nor a signed zero that \<^verbatim>\<open>===\<close> could tell apart). An array or object carries the
  identity of its heap cell, because \<^verbatim>\<open>===\<close> compares objects by identity; the program
  never mutates an object in place. A string is a list of code units below 256.
\<close>

datatype jsval =
    JUndefined
  | JNull
  | JBool bool
  | JNum int
  | JStr string
  | JArr nat "jsval list"
  | JObj nat "(string \<times> jsval) list"

text \<open>An Error object: its \<^verbatim>\<open>name\<close> and its \<^verbatim>\<open>message\<close>.\<close>

datatype js_error = JsError (errName: string) (errMessage: string)

definition mkError :: "string \<Rightarrow> js_error" where
  "mkError msg = JsError ''Error'' msg"

definition mkTypeError :: "string \<Rightarrow> js_error" where
  "mkTypeError msg = JsError ''TypeError'' msg"

text \<open>\<^verbatim>\<open>e?.message || String(e)\<close> for an Error object \<^verbatim>\<open>e\<close>: an empty message is falsy,
  and \<^verbatim>\<open>String(e)\<close> of an error with an empty message is its name.\<close>

definition errText :: "js_error \<Rightarrow> string" where
  "errText e = (if errMessage e \<noteq> [] then errMessage e else errName e)"

fun truthy :: "jsval \<Rightarrow> bool" where
  "truthy JUndefined = False"
| "truthy JNull = False"
| "truthy (JBool b) = b"
| "truthy (JNum n) = (n \<noteq> 0)"
| "truthy (JStr s) = (s \<noteq> [])"
| "truthy (JArr r xs) = True"
| "truthy (JObj r kvs) = True"

fun nullish :: "jsval \<Rightarrow> bool" where
  "nullish JUndefined = True"
| "nullish JNull = True"
| "nullish v = False"

text \<open>\<^verbatim>\<open>a ?? b\<close> and \<^verbatim>\<open>a || b\<close>. The right operands in this program are property reads of
  an object already read once, literals, or the clock, so evaluating them eagerly changes
  nothing.\<close>

definition nullishOr :: "jsval \<Rightarrow> jsval \<Rightarrow> jsval" where
  "nullishOr a b = (if nullish a then b else a)"

definition orElse :: "jsval \<Rightarrow> jsval \<Rightarrow> jsval" where
  "orElse a b = (if truthy a then a else b)"

text \<open>\<^verbatim>\<open>a === b\<close>.\<close>

fun strictEq :: "jsval \<Rightarrow> jsval \<Rightarrow> bool" where
  "strictEq JUndefined JUndefined = True"
| "strictEq JNull JNull = True"
| "strictEq (JBool a) (JBool b) = (a = b)"
| "strictEq (JNum a) (JNum b) = (a = b)"
| "strictEq (JStr a) (JStr b) = (a = b)"
| "strictEq (JArr r xs) (JArr r' ys) = (r = r')"
| "strictEq (JObj r kvs) (JObj r' kvs') = (r = r')"
| "strictEq a b = False"

text \<open>\<^verbatim>\<open>Object.is(a, b)\<close>, React's comparison of effect dependencies. It differs from
  \<^verbatim>\<open>===\<close> only on NaN and on the two zeros, which \<^const>\<open>JNum\<close> does not have.\<close>

definition objectIs :: "jsval \<Rightarrow> jsval \<Rightarrow> bool" where
  "objectIs a b = strictEq a b"

text \<open>
  \<^verbatim>\<open>v.k\<close>: a TypeError on \<^verbatim>\<open>undefined\<close> and \<^verbatim>\<open>null\<close>, the own property of an object (the
  first binding of the key in the list), and \<^verbatim>\<open>undefined\<close> otherwise. The keys the program
  reads (\<^verbatim>\<open>id\<close>, \<^verbatim>\<open>_id\<close>, \<^verbatim>\<open>noteId\<close>, \<^verbatim>\<open>uuid\<close>, \<^verbatim>\<open>title\<close>, \<^verbatim>\<open>content\<close>, the timestamp names
  and \<^verbatim>\<open>notes\<close>) are on no prototype, so primitives and arrays give \<^verbatim>\<open>undefined\<close>.
\<close>

fun getProp :: "jsval \<Rightarrow> string \<Rightarrow> js_error + jsval" where
  "getProp JUndefined k =
     Inl (mkTypeError (''Cannot read properties of undefined (reading '' @ k @ '')''))"
| "getProp JNull k =
     Inl (mkTypeError (''Cannot read properties of null (reading '' @ k @ '')''))"
| "getProp (JObj r kvs) k = Inr (case map_of kvs k of Some v \<Rightarrow> v | None \<Rightarrow> JUndefined)"
| "getProp v k = Inr JUndefined"

text \<open>\<^verbatim>\<open>v?.k\<close>.\<close>

definition optProp :: "jsval \<Rightarrow> string \<Rightarrow> jsval" where
  "optProp v k = (case getProp v k of Inl e \<Rightarrow> JUndefined | Inr x \<Rightarrow> x)"

section \<open>Notes and their normalisation (NotesPage, lines 5-20)\<close>

record cnote =
  note_id :: jsval
  title :: jsval
  content :: jsval
  updatedAt :: jsval
  createdAt :: jsval
  raw :: jsval

text \<open>
  \<^verbatim>\<open>normalizeNote(note)\<close>. \<^verbatim>\<open>nowIso()\<close> reads the clock; the two readings the function may
  take (for \<^verbatim>\<open>updatedAt\<close>, then for \<^verbatim>\<open>createdAt\<close>) are the parameter \<open>now\<close>. The first
  property read throws on \<^verbatim>\<open>undefined\<close> and \<^verbatim>\<open>null\<close>; the later ones read the same value
  and cannot throw.
\<close>

definition normalizeNote :: "string \<times> string \<Rightarrow> jsval \<Rightarrow> js_error + cnote" where
  "normalizeNote now n =
     (case getProp n ''id'' of
        Inl e \<Rightarrow> Inl e
      | Inr i \<Rightarrow>
          Inr \<lparr> note_id =
                  nullishOr i (nullishOr (optProp n ''_id'')
                    (nullishOr (optProp n ''noteId'') (optProp n ''uuid''))),
                title = nullishOr (optProp n ''title'') (JStr ''''),
                content = nullishOr (optProp n ''content'') (JStr ''''),
                updatedAt =
                  nullishOr (optProp n ''updatedAt'') (nullishOr (optProp n ''updated_at'')
                    (nullishOr (optProp n ''modifiedAt'') (nullishOr (optProp n ''modified_at'')
                      (JStr (fst now))))),
                createdAt =
                  nullishOr (optProp n ''createdAt'') (nullishOr (optProp n ''created_at'')
                    (JStr (snd now))),
                raw = n \<rparr>)"

text \<open>The claim's words: the first of a list of fields that is present, a field being
  present when its value is neither \<^verbatim>\<open>undefined\<close> nor \<^verbatim>\<open>null\<close>.\<close>

fun firstPresent :: "jsval \<Rightarrow> string list \<Rightarrow> jsval option" where
  "firstPresent n [] = None"
| "firstPresent n (k # ks) =
     (if nullish (optProp n k) then firstPresent n ks else Some (optProp n k))"

definition idFields :: "string list" where
  "idFields = [''id'', ''_id'', ''noteId'', ''uuid'']"

definition updatedFields :: "string list" where
  "updatedFields = [''updatedAt'', ''updated_at'', ''modifiedAt'', ''modified_at'']"

definition createdFields :: "string list" where
  "createdFields = [''createdAt'', ''created_at'']"

definition demoRecord :: jsval where
  "demoRecord = JObj 7 [(''_id'', JStr ''n1''), (''title'', JStr ''Groceries''),
     (''updated_at'', JStr ''2024-05-01T10:00:00.000Z'')]"

section \<open>Strings\<close>

text \<open>The white space that \<^verbatim>\<open>trim\<close> and \<^verbatim>\<open>trimEnd\<close> strip, among the code units below
  256: tab, line feed, vertical tab, form feed, carriage return, space and the
  no-break space.\<close>

definition isWhiteSpace :: "char \<Rightarrow> bool" where
  "isWhiteSpace c =
     (c \<in> set [CHR 0x09, CHR 0x0A, CHR 0x0B, CHR 0x0C, CHR 0x0D, CHR 0x20, CHR 0xA0])"

definition trimStart :: "string \<Rightarrow> string" where
  "trimStart s = dropWhile isWhiteSpace s"

definition trimEnd :: "string \<Rightarrow> string" where
  "trimEnd s = rev (dropWhile isWhiteSpace (rev s))"

definition trim :: "string \<Rightarrow> string" where
  "trim s = trimEnd (trimStart s)"

text \<open>\<^verbatim>\<open>toLowerCase\<close> on code units below 256: the letters A-Z and the capital letters of
  Latin-1 (0xC0-0xDE but the multiplication sign 0xD7) move up by 32.\<close>

definition lowerChar :: "char \<Rightarrow> char" where
  "lowerChar c =
     (let n = (of_char c :: nat)
      in if (65 \<le> n \<and> n \<le> 90) \<or> (192 \<le> n \<and> n \<le> 222 \<and> n \<noteq> 215)
         then char_of (n + 32) else c)"

definition toLowerCase :: "string \<Rightarrow> string" where
  "toLowerCase s = map lowerChar s"

text \<open>\<^verbatim>\<open>s.includes(q)\<close>: \<open>q\<close> occurs in \<open>s\<close> as a contiguous run.\<close>

fun includes_str :: "string \<Rightarrow> string \<Rightarrow> bool" where
  "includes_str [] q = (q = [])"
| "includes_str (c # cs) q = (take (length q) (c # cs) = q \<or> includes_str cs q)"

text \<open>A string method called on a value: only a string has it. The values the program
  calls these on are of the form \<^verbatim>\<open>(v || "")\<close>, so never \<^verbatim>\<open>undefined\<close> or \<^verbatim>\<open>null\<close>.\<close>

fun js_trim :: "jsval \<Rightarrow> js_error + string" where
  "js_trim (JStr s) = Inr (trim s)"
| "js_trim v = Inl (mkTypeError ''(intermediate value).trim is not a function'')"

fun js_trimEnd :: "jsval \<Rightarrow> js_error + string" where
  "js_trimEnd (JStr s) = Inr (trimEnd s)"
| "js_trimEnd v = Inl (mkTypeError ''(intermediate value).trimEnd is not a function'')"

fun js_toLowerCase :: "jsval \<Rightarrow> js_error + string" where
  "js_toLowerCase (JStr s) = Inr (toLowerCase s)"
| "js_toLowerCase v = Inl (mkTypeError ''(intermediate value).toLowerCase is not a function'')"

section \<open>The state of the notes page (NotesPage, lines 37-52)\<close>

datatype toast_kind = ToastError | ToastSuccess

record toast_msg =
  kind :: toast_kind
  message :: string

record state =
  notes' :: "cnote list"
  selectedId :: jsval
  search :: string
  draftTitle :: jsval
  draftContent :: jsval
  isLoading :: bool
  isSaving :: bool
  isDeleting :: bool
  toast :: "toast_msg option"

definition initialState :: state where
  "initialState =
     \<lparr> notes' = [], selectedId = JNull, search = '''', draftTitle = JStr '''',
       draftContent = JStr '''', isLoading = True, isSaving = False, isDeleting = False,
       toast = None \<rparr>"

text \<open>\<^verbatim>\<open>notes.find((n) => n.id === selectedId) || null\<close>; a note is an object, so truthy.\<close>

definition selected :: "state \<Rightarrow> cnote option" where
  "selected s = find (\<lambda>n. strictEq (note_id n) (selectedId s)) (notes' s)"

definition setSuccess :: "string \<Rightarrow> state \<Rightarrow> state" where
  "setSuccess msg s = s\<lparr>toast := Some \<lparr>kind = ToastSuccess, message = msg\<rparr>\<rparr>"

definition setError :: "js_error \<Rightarrow> state \<Rightarrow> state" where
  "setError e s = s\<lparr>toast := Some \<lparr>kind = ToastError, message = errText e\<rparr>\<rparr>"

definition hasEdits :: "state \<Rightarrow> bool" where
  "hasEdits s =
     (case selected s of
        None \<Rightarrow> False
      | Some n \<Rightarrow>
          (if strictEq (orElse (draftTitle s) (JStr '''')) (orElse (title n) (JStr ''''))
           then \<not> strictEq (orElse (draftContent s) (JStr '''')) (orElse (content n) (JStr ''''))
           else True))"

section \<open>Rendering: the draft-sync effect (NotesPage, lines 98-107)\<close>

text \<open>The body of the effect whose dependency list is \<^verbatim>\<open>[selectedId]\<close>.\<close>

definition draftSync :: "state \<Rightarrow> state" where
  "draftSync s =
     (case selected s of
        None \<Rightarrow> s\<lparr>draftTitle := JStr '''', draftContent := JStr ''''\<rparr>
      | Some n \<Rightarrow> s\<lparr>draftTitle := orElse (title n) (JStr ''''),
                     draftContent := orElse (content n) (JStr '''')\<rparr>)"

text \<open>
  After an event's state updates React renders again and then runs the effect if
  \<^verbatim>\<open>selectedId\<close> is not the value of the previous render. \<open>prev\<close> is the state of the
  previous render, \<open>s\<close> the state the handler left. The effect's own updates touch the
  draft only, so no further run follows. The run after the first render finds nothing
  selected and leaves the initial draft of two empty strings as it is.
\<close>

definition afterRender :: "state \<Rightarrow> state \<Rightarrow> state" where
  "afterRender prev s = (if objectIs (selectedId prev) (selectedId s) then s else draftSync s)"

section \<open>The handlers (NotesPage, lines 67-96 and 122-183)\<close>

text \<open>
  The API client as the page sees it: each call either rejects with an error or resolves
  with a value. A handler that awaits a call runs in two parts: up to the call, and from
  its result on. The second part works on the state of that later moment, but reads
  \<^verbatim>\<open>notes\<close> and \<^verbatim>\<open>selectedId\<close> outside an updater from the render in which the handler
  was invoked; these are the first arguments of the \<open>settle\<close> functions. A handler's run
  without any other event between its two parts is the composition of the two.
\<close>

datatype api_call =
    ListNotes
  | CreateNote string string
  | UpdateNote jsval string string
  | DeleteNote jsval

type_synonym api = "api_call \<Rightarrow> js_error + jsval"

datatype started =
    Threw state js_error
  | Finished state
  | Awaiting state api_call

record outcome =
  st :: state
  calls :: "api_call list"
  uncaught :: "js_error option"

definition handleNew :: "state \<Rightarrow> outcome" where
  "handleNew s =
     \<lparr> st = s\<lparr>toast := None, selectedId := JNull, draftTitle := JStr ''Untitled'',
                draftContent := JStr ''''\<rparr>,
       calls = [], uncaught = None \<rparr>"

text \<open>\<^verbatim>\<open>{ ...n, ...normalized }\<close>: the normalised note has all six properties as its own, so
  each of them overrides the previous entry's.\<close>

definition mergeNote :: "cnote \<Rightarrow> cnote \<Rightarrow> cnote" where
  "mergeNote n normalized =
     n\<lparr> note_id := note_id normalized, title := title normalized,
        content := content normalized, updatedAt := updatedAt normalized,
        createdAt := createdAt normalized, raw := raw normalized \<rparr>"

definition handleSave_begin :: "state \<Rightarrow> started" where
  "handleSave_begin s =
     (let s1 = s\<lparr>toast := None\<rparr> in
      case js_trim (orElse (draftTitle s) (JStr '''')) of
        Inl e \<Rightarrow> Threw s1 e
      | Inr t \<Rightarrow>
          (case js_trimEnd (orElse (draftContent s) (JStr '''')) of
             Inl e \<Rightarrow> Threw s1 e
           | Inr c \<Rightarrow>
               if t = [] then Finished (setError (mkError ''Title is required.'') s1)
               else Awaiting (s1\<lparr>isSaving := True\<rparr>)
                      (if \<not> truthy (selectedId s) then CreateNote t c
                       else UpdateNote (selectedId s) t c)))"

definition handleSave_settle ::
    "jsval \<Rightarrow> string \<times> string \<Rightarrow> js_error + jsval \<Rightarrow> state \<Rightarrow> state" where
  "handleSave_settle sid now res s =
     (case res of
        Inl e \<Rightarrow> (setError e s)\<lparr>isSaving := False\<rparr>
      | Inr v \<Rightarrow>
          (case normalizeNote now v of
             Inl e \<Rightarrow> (setError e s)\<lparr>isSaving := False\<rparr>
           | Inr normalized \<Rightarrow>
               if \<not> truthy sid
               then (setSuccess ''Note created.''
                       (s\<lparr>notes' := normalized # notes' s, selectedId := note_id normalized\<rparr>))
                     \<lparr>isSaving := False\<rparr>
               else (setSuccess ''Note saved.''
                       (s\<lparr>notes' := map (\<lambda>n. if strictEq (note_id n) sid
                                               then mergeNote n normalized else n) (notes' s)\<rparr>))
                     \<lparr>isSaving := False\<rparr>))"

definition handleSave :: "api \<Rightarrow> string \<times> string \<Rightarrow> state \<Rightarrow> outcome" where
  "handleSave api now s =
     (case handleSave_begin s of
        Threw s1 e \<Rightarrow> \<lparr>st = s1, calls = [], uncaught = Some e\<rparr>
      | Finished s1 \<Rightarrow> \<lparr>st = s1, calls = [], uncaught = None\<rparr>
      | Awaiting s1 c \<Rightarrow>
          \<lparr>st = handleSave_settle (selectedId s) now (api c) s1, calls = [c],
           uncaught = None\<rparr>)"

definition handleDelete_begin :: "state \<Rightarrow> started" where
  "handleDelete_begin s =
     (if \<not> truthy (selectedId s)
      then Finished (setError (mkError ''Select a note to delete.'') s)
      else Awaiting (s\<lparr>toast := None, isDeleting := True\<rparr>) (DeleteNote (selectedId s)))"

text \<open>\<^verbatim>\<open>remaining[0]?.id ?? null\<close>.\<close>

definition firstId :: "cnote list \<Rightarrow> jsval" where
  "firstId ns = (case ns of [] \<Rightarrow> JNull | n # rest \<Rightarrow> nullishOr (note_id n) JNull)"

definition handleDelete_settle ::
    "cnote list \<Rightarrow> jsval \<Rightarrow> js_error + jsval \<Rightarrow> state \<Rightarrow> state" where
  "handleDelete_settle ns sid res s =
     (case res of
        Inl e \<Rightarrow> (setError e s)\<lparr>isDeleting := False\<rparr>
      | Inr v \<Rightarrow>
          (setSuccess ''Note deleted.''
             (s\<lparr>notes' := filter (\<lambda>n. \<not> strictEq (note_id n) sid) (notes' s),
                selectedId :=
                  firstId (filter (\<lambda>n. \<not> strictEq (note_id n) (selectedId s)) ns)\<rparr>))
           \<lparr>isDeleting := False\<rparr>)"

definition handleDelete :: "api \<Rightarrow> state \<Rightarrow> outcome" where
  "handleDelete api s =
     (case handleDelete_begin s of
        Threw s1 e \<Rightarrow> \<lparr>st = s1, calls = [], uncaught = Some e\<rparr>
      | Finished s1 \<Rightarrow> \<lparr>st = s1, calls = [], uncaught = None\<rparr>
      | Awaiting s1 c \<Rightarrow>
          \<lparr>st = handleDelete_settle (notes' s) (selectedId s) (api c) s1, calls = [c],
           uncaught = None\<rparr>)"

text \<open>
  The initial load. \<^verbatim>\<open>Array.isArray(res) ? res : res?.notes || []\<close>, then \<^verbatim>\<open>arr.map\<close>, which only
  an array has. \<^verbatim>\<open>arr.map(normalizeNote)\<close> stops at the first record that throws; the clock
  readings of the record at position \<open>i\<close> are \<open>clock i\<close>.
\<close>

definition responseRecords :: "jsval \<Rightarrow> js_error + jsval list" where
  "responseRecords res =
     (case res of
        JArr r xs \<Rightarrow> Inr xs
      | _ \<Rightarrow>
          (case orElse (optProp res ''notes'') (JArr 0 []) of
             JArr r xs \<Rightarrow> Inr xs
           | _ \<Rightarrow> Inl (mkTypeError ''arr.map is not a function'')))"

fun normalizeEach :: "(nat \<Rightarrow> string \<times> string) \<Rightarrow> nat \<Rightarrow> jsval list \<Rightarrow> js_error + cnote list" where
  "normalizeEach clock i [] = Inr []"
| "normalizeEach clock i (x # xs) =
     (case normalizeNote (clock i) x of
        Inl e \<Rightarrow> Inl e
      | Inr n \<Rightarrow>
          (case normalizeEach clock (Suc i) xs of
             Inl e \<Rightarrow> Inl e
           | Inr ns \<Rightarrow> Inr (n # ns)))"

definition load_begin :: "state \<Rightarrow> started" where
  "load_begin s = Awaiting (s\<lparr>isLoading := True, toast := None\<rparr>) ListNotes"

text \<open>\<open>cancelled\<close> is the flag of the effect's closure at the moment the request settles:
  true when the cleanup (the unmount) ran before.\<close>

definition load_settle ::
    "bool \<Rightarrow> (nat \<Rightarrow> string \<times> string) \<Rightarrow> js_error + jsval \<Rightarrow> state \<Rightarrow> outcome" where
  "load_settle cancelled clock res s =
     (let normalized =
            (case res of
               Inl e \<Rightarrow> Inl e
             | Inr v \<Rightarrow>
                 (case responseRecords v of
                    Inl e \<Rightarrow> Inl e
                  | Inr arr \<Rightarrow> normalizeEach clock 0 arr))
      in case normalized of
           Inr ns \<Rightarrow>
             if cancelled then \<lparr>st = s, calls = [], uncaught = None\<rparr>
             else \<lparr>st = s\<lparr>notes' := ns,
                          selectedId := nullishOr (selectedId s) (firstId ns),
                          isLoading := False\<rparr>,
                   calls = [], uncaught = None\<rparr>
         | Inl e \<Rightarrow>
             if cancelled then \<lparr>st = s, calls = [], uncaught = None\<rparr>
             else \<lparr>st = (setError e s)\<lparr>isLoading := False\<rparr>, calls = [], uncaught = None\<rparr>)"

definition load :: "bool \<Rightarrow> api \<Rightarrow> (nat \<Rightarrow> string \<times> string) \<Rightarrow> state \<Rightarrow> outcome" where
  "load cancelled api clock s =
     (case load_begin s of
        Threw s1 e \<Rightarrow> \<lparr>st = s1, calls = [], uncaught = Some e\<rparr>
      | Finished s1 \<Rightarrow> \<lparr>st = s1, calls = [], uncaught = None\<rparr>
      | Awaiting s1 c \<Rightarrow> (load_settle cancelled clock (api c) s1)\<lparr>calls := [c]\<rparr>)"

section \<open>Events: a handler and the render that follows it\<close>

definition onNew :: "state \<Rightarrow> state" where
  "onNew s = afterRender s (st (handleNew s))"

definition onSave :: "api \<Rightarrow> string \<times> string \<Rightarrow> state \<Rightarrow> state" where
  "onSave api now s = afterRender s (st (handleSave api now s))"

definition onDelete :: "api \<Rightarrow> state \<Rightarrow> state" where
  "onDelete api s = afterRender s (st (handleDelete api s))"

definition onLoad :: "bool \<Rightarrow> api \<Rightarrow> (nat \<Rightarrow> string \<times> string) \<Rightarrow> state \<Rightarrow> state" where
  "onLoad cancelled api clock s = afterRender s (st (load cancelled api clock s))"

text \<open>The load runs once, from the state the page mounts with.\<close>

definition onMount :: "bool \<Rightarrow> api \<Rightarrow> (nat \<Rightarrow> string \<times> string) \<Rightarrow> state" where
  "onMount cancelled api clock = onLoad cancelled api clock initialState"

section \<open>The visible list (NotesPage, lines 54-65)\<close>

text \<open>
  \<^verbatim>\<open>new Date(a.updatedAt || a.createdAt || 0).getTime()\<close>. What \<^verbatim>\<open>Date\<close> makes of a value
  is the parameter \<open>getTime\<close>: the time in milliseconds, or nothing for an invalid date,
  whose time is NaN.
\<close>

definition noteTime :: "(jsval \<Rightarrow> int option) \<Rightarrow> cnote \<Rightarrow> int option" where
  "noteTime getTime a = getTime (orElse (orElse (updatedAt a) (createdAt a)) (JNum 0))"

text \<open>The comparator \<^verbatim>\<open>(a, b) => bt - at\<close>; nothing stands for NaN. The times of valid
  dates are integers of at most 8.64e15 in size, so the floating-point difference has the
  sign of the exact one, and the sort reads the sign only.\<close>

definition compareNewest :: "(jsval \<Rightarrow> int option) \<Rightarrow> cnote \<Rightarrow> cnote \<Rightarrow> int option" where
  "compareNewest getTime a b =
     (case noteTime getTime a of
        None \<Rightarrow> None
      | Some at \<Rightarrow> (case noteTime getTime b of None \<Rightarrow> None | Some bt \<Rightarrow> Some (bt - at)))"

text \<open>
  \<^verbatim>\<open>Array.prototype.sort\<close> with a comparator is the engine's, not the repository's. It
  reads a NaN from the comparator as 0. The model is the sort of V8 (Node, Chrome) for
  an array of fewer than 64 elements: the longest run at the front is found by comparing
  neighbours (a strictly descending run is reversed), and each later element is put into
  the sorted front at the point a binary search gives. For a consistent comparator the
  result is the stable sort, which is the same list in every engine and for every
  length. For an inconsistent comparator the order is the engine's own; from 64 elements
  on V8 merges several such runs, which the model does not follow.
\<close>

definition nanAsZero :: "int option \<Rightarrow> int" where
  "nanAsZero v = (case v of None \<Rightarrow> 0 | Some d \<Rightarrow> d)"

text \<open>The binary search: \<open>left\<close> and \<open>right\<close> start as 0 and the length of the sorted
  front, so the element read is always inside it.\<close>

function insertionPoint :: "('a \<Rightarrow> 'a \<Rightarrow> int) \<Rightarrow> 'a \<Rightarrow> 'a list \<Rightarrow> nat \<Rightarrow> nat \<Rightarrow> nat" where
  "insertionPoint cmp pivot xs left right =
     (if left < right
      then (let mid = left + (right - left) div 2
            in if cmp pivot (xs ! mid) < 0 then insertionPoint cmp pivot xs left mid
               else insertionPoint cmp pivot xs (mid + 1) right)
      else left)"
  by pat_completeness auto
termination
  by (relation "measure (\<lambda>(cmp, pivot, xs, left, right). right - left)") auto

declare insertionPoint.simps [simp del]

definition binaryInsert :: "('a \<Rightarrow> 'a \<Rightarrow> int) \<Rightarrow> 'a \<Rightarrow> 'a list \<Rightarrow> 'a list" where
  "binaryInsert cmp pivot run =
     (let p = insertionPoint cmp pivot run 0 (length run)
      in take p run @ pivot # drop p run)"

fun binaryInsertionSort :: "('a \<Rightarrow> 'a \<Rightarrow> int) \<Rightarrow> 'a list \<Rightarrow> 'a list \<Rightarrow> 'a list" where
  "binaryInsertionSort cmp run [] = run"
| "binaryInsertionSort cmp run (pivot # rest) =
     binaryInsertionSort cmp (binaryInsert cmp pivot run) rest"

text \<open>The run is extended while each element compares with the one before it as the
  first two did: below 0 all along for a descending run, at or above 0 otherwise.\<close>

fun extendRun :: "('a \<Rightarrow> 'a \<Rightarrow> int) \<Rightarrow> bool \<Rightarrow> 'a \<Rightarrow> 'a list \<Rightarrow> 'a list \<times> 'a list" where
  "extendRun cmp descending previous [] = ([], [])"
| "extendRun cmp descending previous (current # rest) =
     (if (if descending then 0 \<le> cmp current previous else cmp current previous < 0)
      then ([], current # rest)
      else (case extendRun cmp descending current rest of
              (run, remaining) \<Rightarrow> (current # run, remaining)))"

fun countAndMakeRun :: "('a \<Rightarrow> 'a \<Rightarrow> int) \<Rightarrow> 'a list \<Rightarrow> 'a list \<times> 'a list" where
  "countAndMakeRun cmp (x0 # x1 # rest) =
     (let descending = (cmp x1 x0 < 0)
      in case extendRun cmp descending x1 rest of
           (run, remaining) \<Rightarrow>
             (if descending then rev (x0 # x1 # run) else x0 # x1 # run, remaining))"
| "countAndMakeRun cmp xs = (xs, [])"

definition arraySort :: "('a \<Rightarrow> 'a \<Rightarrow> int) \<Rightarrow> 'a list \<Rightarrow> 'a list" where
  "arraySort cmp xs =
     (case countAndMakeRun cmp xs of
        (run, remaining) \<Rightarrow> binaryInsertionSort cmp run remaining)"

text \<open>\<^verbatim>\<open>base.sort((a, b) => ...)\<close> on the copy of the collection.\<close>

definition sortNewestFirst :: "(jsval \<Rightarrow> int option) \<Rightarrow> cnote list \<Rightarrow> cnote list" where
  "sortNewestFirst getTime ns =
     arraySort (\<lambda>a b. nanAsZero (compareNewest getTime a b)) ns"

text \<open>A comparator that is the difference of a key on a set of elements.\<close>

definition keyed :: "('a \<Rightarrow> 'a \<Rightarrow> int) \<Rightarrow> ('a \<Rightarrow> int) \<Rightarrow> 'a set \<Rightarrow> bool" where
  "keyed cmp key S = (\<forall>a\<in>S. \<forall>b\<in>S. cmp a b = key b - key a)"

text \<open>The filter's predicate, with the short circuit of \<^verbatim>\<open>||\<close>; \<^verbatim>\<open>filter\<close> stops at the first
  note on which it throws.\<close>

definition matchesQuery :: "string \<Rightarrow> cnote \<Rightarrow> js_error + bool" where
  "matchesQuery q n =
     (case js_toLowerCase (orElse (title n) (JStr '''')) of
        Inl e \<Rightarrow> Inl e
      | Inr t \<Rightarrow>
          if includes_str t q then Inr True
          else (case js_toLowerCase (orElse (content n) (JStr '''')) of
                  Inl e \<Rightarrow> Inl e
                | Inr c \<Rightarrow> Inr (includes_str c q)))"

fun filterNotes :: "(cnote \<Rightarrow> js_error + bool) \<Rightarrow> cnote list \<Rightarrow> js_error + cnote list" where
  "filterNotes p [] = Inr []"
| "filterNotes p (n # ns) =
     (case p n of
        Inl e \<Rightarrow> Inl e
      | Inr keep \<Rightarrow>
          (case filterNotes p ns of
             Inl e \<Rightarrow> Inl e
           | Inr rest \<Rightarrow> Inr (if keep then n # rest else rest)))"

text \<open>\<^verbatim>\<open>filteredNotes\<close>, for the debounced search text, which is a string.\<close>

definition filteredNotes ::
    "(jsval \<Rightarrow> int option) \<Rightarrow> string \<Rightarrow> cnote list \<Rightarrow> js_error + cnote list" where
  "filteredNotes getTime debouncedSearch ns =
     (let q = toLowerCase (trim debouncedSearch);
          base = sortNewestFirst getTime ns
      in if q = [] then Inr base else filterNotes (matchesQuery q) base)"

text \<open>The claim's words: a note's field is text (a string, or a falsy value that counts
  as the empty text), and a note matches a query when its lower-cased title or content
  contains it.\<close>

fun isText :: "jsval \<Rightarrow> bool" where
  "isText (JStr s) = True"
| "isText v = (\<not> truthy v)"

fun textOf :: "jsval \<Rightarrow> string" where
  "textOf (JStr s) = s"
| "textOf v = ''''"

definition textMatches :: "string \<Rightarrow> cnote \<Rightarrow> bool" where
  "textMatches q n =
     (if includes_str (toLowerCase (textOf (title n))) q then True
      else includes_str (toLowerCase (textOf (content n))) q)"

text \<open>A reading of dates for the examples: a number is its own time, the three strings
  below are known dates, every other value is an invalid date.\<close>

definition demoTime :: "jsval \<Rightarrow> int option" where
  "demoTime v =
     (case v of
        JNum n \<Rightarrow> Some n
      | JStr s \<Rightarrow>
          (if s = ''2024-05-02T08:00:00.000Z'' then Some 1714636800000
           else if s = ''2024-05-01T09:00:00.000Z'' then Some 1714554000000
           else if s = ''2024-05-01T08:00:00.000Z'' then Some 1714550400000
           else None)
      | _ \<Rightarrow> None)"

definition demoNoteTime :: "cnote \<Rightarrow> int" where
  "demoNoteTime n = (case noteTime demoTime n of Some t \<Rightarrow> t | None \<Rightarrow> 0)"

section \<open>The two ways to invoke a save (NotesPage, lines 205-214 and 292-324)\<close>

text \<open>
  The header button's \<^verbatim>\<open>disabled\<close> attribute,
  \<^verbatim>\<open>isSaving || (!selectedId && !(draftTitle || "").trim()) || (selectedId && !hasEdits())\<close>,
  with the short circuits of \<^verbatim>\<open>||\<close> and \<^verbatim>\<open>&&\<close>: the trim is evaluated only without a
  selection, \<^verbatim>\<open>hasEdits()\<close> only with one. A throw here is a throw of the render.
\<close>

definition headerSaveDisabled :: "state \<Rightarrow> js_error + bool" where
  "headerSaveDisabled s =
     (if isSaving s then Inr True
      else if \<not> truthy (selectedId s)
      then (case js_trim (orElse (draftTitle s) (JStr '''')) of
              Inl e \<Rightarrow> Inl e
            | Inr t \<Rightarrow> Inr (t = []))
      else Inr (\<not> hasEdits s))"

text \<open>
  The editor form calls \<^verbatim>\<open>handleSave\<close> on submit. Its submit button is disabled by
  \<^verbatim>\<open>isSaving\<close> alone (a disabled default button also stops the Enter key), and the
  browser refuses to submit while the \<^verbatim>\<open>required\<close> title input is empty. The input shows
  the draft title; \<^verbatim>\<open>undefined\<close> and \<^verbatim>\<open>null\<close> show as the empty value.
\<close>

fun inputValueMissing :: "jsval \<Rightarrow> bool" where
  "inputValueMissing (JStr s) = (s = [])"
| "inputValueMissing JUndefined = True"
| "inputValueMissing JNull = True"
| "inputValueMissing v = False"

definition formSubmitBlocked :: "state \<Rightarrow> bool" where
  "formSubmitBlocked s = (if isSaving s then True else inputValueMissing (draftTitle s))"

datatype save_entry = HeaderSaveButton | EditorFormSubmit

fun saveEntryEnabled :: "save_entry \<Rightarrow> state \<Rightarrow> bool" where
  "saveEntryEnabled HeaderSaveButton s = (headerSaveDisabled s = Inr False)"
| "saveEntryEnabled EditorFormSubmit s = (\<not> formSubmitBlocked s)"

text \<open>A save step through an entry point: none when the entry point is unavailable.\<close>

definition invokeSave ::
    "api \<Rightarrow> string \<times> string \<Rightarrow> save_entry \<Rightarrow> state \<Rightarrow> outcome option" where
  "invokeSave api now entry s =
     (if saveEntryEnabled entry s then Some (handleSave api now s) else None)"

fun isArray :: "jsval \<Rightarrow> bool" where
  "isArray (JArr r xs) = True"
| "isArray v = False"

section \<open>The API client (notesApi.js)\<close>

text \<open>
  The environment holds the two variables, each a string or unset. The platform is what
  the client calls and the repository does not define: \<^verbatim>\<open>fetch\<close>, which rejects or
  resolves with a response, \<^verbatim>\<open>JSON.stringify\<close> and \<^verbatim>\<open>encodeURIComponent\<close>. A response is read
  through \<^verbatim>\<open>status\<close>, \<^verbatim>\<open>statusText\<close>, the content-type header and the outcomes of
  \<^verbatim>\<open>response.json()\<close> and \<^verbatim>\<open>response.text()\<close>; \<^verbatim>\<open>response.ok\<close> is a status from 200 to 299.
\<close>

record env =
  REACT_APP_API_BASE :: "string option"
  REACT_APP_BACKEND_URL :: "string option"

record response =
  status :: nat
  statusText :: string
  contentType :: "string option"
  jsonBody :: "js_error + jsval"
  textBody :: "js_error + string"

record http_request =
  url :: string
  req_method :: string
  req_headers :: "(string \<times> string) list"
  req_body :: "string option"

record platform =
  fetch :: "http_request \<Rightarrow> js_error + response"
  stringify :: "jsval \<Rightarrow> string"
  encodeURIComponent :: "jsval \<Rightarrow> string"

text \<open>The \<^verbatim>\<open>options\<close> the four operations pass: a method and, for two of them, a body. None
  passes headers, so \<^verbatim>\<open>...(options.headers || {})\<close> adds nothing.\<close>

record options =
  opt_method :: string
  opt_body :: "string option"

definition ok :: "response \<Rightarrow> bool" where
  "ok r = (200 \<le> status r \<and> status r \<le> 299)"

text \<open>\<^verbatim>\<open>process.env.REACT_APP_API_BASE || process.env.REACT_APP_BACKEND_URL || ""\<close>, and the
  trailing slashes removed.\<close>

definition getApiBase :: "env \<Rightarrow> string" where
  "getApiBase e =
     (let first = (case REACT_APP_API_BASE e of None \<Rightarrow> [] | Some a \<Rightarrow> a);
          second = (case REACT_APP_BACKEND_URL e of None \<Rightarrow> [] | Some b \<Rightarrow> b);
          raw = (if first \<noteq> [] then first else second)
      in rev (dropWhile (\<lambda>c. c = CHR ''/'') (rev raw)))"

definition parseJsonOrText :: "response \<Rightarrow> js_error + jsval" where
  "parseJsonOrText r =
     (let ct = (case contentType r of None \<Rightarrow> [] | Some c \<Rightarrow> c)
      in if includes_str ct ''application/json'' then jsonBody r
         else (case textBody r of Inl e \<Rightarrow> Inl e | Inr t \<Rightarrow> Inr (JStr t)))"

text \<open>A number in a template literal: its decimal digits.\<close>

fun decimal :: "nat \<Rightarrow> string" where
  "decimal n =
     (if n < 10 then [char_of (48 + n)]
      else decimal (n div 10) @ [char_of (48 + n mod 10)])"

declare decimal.simps [simp del]

definition missingBaseError :: js_error where
  "missingBaseError = mkError
     ''Missing API base URL. Set REACT_APP_API_BASE (preferred) or REACT_APP_BACKEND_URL in the environment.''"

text \<open>\<^verbatim>\<open>request(path, options)\<close>, with the list of the fetch calls it made; \<open>requestFor\<close> is
  the URL and the options it hands to \<^verbatim>\<open>fetch\<close>.\<close>

definition requestFor :: "string \<Rightarrow> string \<Rightarrow> options \<Rightarrow> http_request" where
  "requestFor base path opts =
     \<lparr> url = base @ (if take 1 path = ''/'' then [] else ''/'') @ path,
       req_method = opt_method opts,
       req_headers = [(''Content-Type'', ''application/json'')],
       req_body = opt_body opts \<rparr>"

definition request ::
    "env \<Rightarrow> platform \<Rightarrow> string \<Rightarrow> options \<Rightarrow> http_request list \<times> (js_error + jsval)" where
  "request e pf path opts =
     (let base = getApiBase e in
      if base = [] then ([], Inl missingBaseError)
      else
        let rq = requestFor base path opts
        in case fetch pf rq of
             Inl err \<Rightarrow>
               ([rq], Inl (mkError (''Network error contacting backend at '' @ base @ ''. ''
                                     @ errText err)))
           | Inr r \<Rightarrow>
               if \<not> ok r
               then (case parseJsonOrText r of
                       Inl err \<Rightarrow> ([rq], Inl err)
                     | Inr payload \<Rightarrow>
                         ([rq], Inl (mkError (''API error '' @ decimal (status r) @ '' ''
                            @ statusText r @ '': ''
                            @ (case payload of JStr t \<Rightarrow> t | _ \<Rightarrow> stringify pf payload)))))
               else if status r = 204 then ([rq], Inr JNull)
               else ([rq], parseJsonOrText r))"

fun isString :: "jsval \<Rightarrow> bool" where
  "isString (JStr t) = True"
| "isString v = False"

text \<open>\<^verbatim>\<open>!note || typeof note.title !== "string" || typeof note.content !== "string"\<close>.\<close>

definition invalidPayload :: "jsval \<Rightarrow> bool" where
  "invalidPayload n =
     (if \<not> truthy n then True
      else if \<not> isString (optProp n ''title'') then True
      else \<not> isString (optProp n ''content''))"

definition invalidPayloadError :: js_error where
  "invalidPayloadError =
     mkError ''Invalid note payload. Expected {title: string, content: string}.''"

definition listNotes :: "env \<Rightarrow> platform \<Rightarrow> http_request list \<times> (js_error + jsval)" where
  "listNotes e pf = request e pf ''/notes'' \<lparr>opt_method = ''GET'', opt_body = None\<rparr>"

definition createNote :: "env \<Rightarrow> platform \<Rightarrow> jsval \<Rightarrow> http_request list \<times> (js_error + jsval)" where
  "createNote e pf n =
     (if invalidPayload n then ([], Inl invalidPayloadError)
      else request e pf ''/notes'' \<lparr>opt_method = ''POST'', opt_body = Some (stringify pf n)\<rparr>)"

definition updateNote ::
    "env \<Rightarrow> platform \<Rightarrow> jsval \<Rightarrow> jsval \<Rightarrow> http_request list \<times> (js_error + jsval)" where
  "updateNote e pf i n =
     (if \<not> truthy i then ([], Inl (mkError ''Missing note id.''))
      else if invalidPayload n then ([], Inl invalidPayloadError)
      else request e pf (''/notes/'' @ encodeURIComponent pf i)
             \<lparr>opt_method = ''PUT'', opt_body = Some (stringify pf n)\<rparr>)"

definition deleteNote :: "env \<Rightarrow> platform \<Rightarrow> jsval \<Rightarrow> http_request list \<times> (js_error + jsval)" where
  "deleteNote e pf i =
     (if \<not> truthy i then ([], Inl (mkError ''Missing note id.''))
      else request e pf (''/notes/'' @ encodeURIComponent pf i)
             \<lparr>opt_method = ''DELETE'', opt_body = None\<rparr>)"

text \<open>A call of one of the four exported operations; whether the operation's own checks
  reject its arguments; and the path and options it passes to \<^verbatim>\<open>request\<close> when they do
  not.\<close>

datatype client_call =
    CallList
  | CallCreate jsval
  | CallUpdate jsval jsval
  | CallDelete jsval

definition perform :: "env \<Rightarrow> platform \<Rightarrow> client_call \<Rightarrow> http_request list \<times> (js_error + jsval)" where
  "perform e pf c =
     (case c of
        CallList \<Rightarrow> listNotes e pf
      | CallCreate n \<Rightarrow> createNote e pf n
      | CallUpdate i n \<Rightarrow> updateNote e pf i n
      | CallDelete i \<Rightarrow> deleteNote e pf i)"

definition argsRejected :: "client_call \<Rightarrow> bool" where
  "argsRejected c =
     (case c of
        CallList \<Rightarrow> False
      | CallCreate n \<Rightarrow> invalidPayload n
      | CallUpdate i n \<Rightarrow> (if truthy i then invalidPayload n else True)
      | CallDelete i \<Rightarrow> (if truthy i then False else True))"

definition opPath :: "platform \<Rightarrow> client_call \<Rightarrow> string" where
  "opPath pf c =
     (case c of
        CallList \<Rightarrow> ''/notes''
      | CallCreate n \<Rightarrow> ''/notes''
      | CallUpdate i n \<Rightarrow> ''/notes/'' @ encodeURIComponent pf i
      | CallDelete i \<Rightarrow> ''/notes/'' @ encodeURIComponent pf i)"

definition opOptions :: "platform \<Rightarrow> client_call \<Rightarrow> options" where
  "opOptions pf c =
     (case c of
        CallList \<Rightarrow> \<lparr>opt_method = ''GET'', opt_body = None\<rparr>
      | CallCreate n \<Rightarrow> \<lparr>opt_method = ''POST'', opt_body = Some (stringify pf n)\<rparr>
      | CallUpdate i n \<Rightarrow> \<lparr>opt_method = ''PUT'', opt_body = Some (stringify pf n)\<rparr>
      | CallDelete i \<Rightarrow> \<lparr>opt_method = ''DELETE'', opt_body = None\<rparr>)"

definition sentRequest :: "env \<Rightarrow> platform \<Rightarrow> client_call \<Rightarrow> http_request" where
  "sentRequest e pf c = requestFor (getApiBase e) (opPath pf c) (opOptions pf c)"

text \<open>The page's calls, made through the client: \<^verbatim>\<open>{ title, content }\<close> is a fresh object.\<close>

definition pageApi :: "env \<Rightarrow> platform \<Rightarrow> api" where
  "pageApi e pf c =
     (case c of
        ListNotes \<Rightarrow> snd (listNotes e pf)
      | CreateNote t b \<Rightarrow>
          snd (createNote e pf (JObj 0 [(''title'', JStr t), (''content'', JStr b)]))
      | UpdateNote i t b \<Rightarrow>
          snd (updateNote e pf i (JObj 0 [(''title'', JStr t), (''content'', JStr b)]))
      | DeleteNote i \<Rightarrow> snd (deleteNote e pf i))"

text \<open>A configured client, and a backend that answers every request with status 500, a
  JSON content type and a body that is not JSON.\<close>

definition demoEnv :: env where
  "demoEnv = \<lparr>REACT_APP_API_BASE = Some ''http://api/'', REACT_APP_BACKEND_URL = None\<rparr>"

definition brokenResponse :: response where
  "brokenResponse =
     \<lparr> status = 500, statusText = ''Internal Server Error'',
       contentType = Some ''application/json'',
       jsonBody = Inl (JsError ''SyntaxError'' ''Unexpected end of JSON input''),
       textBody = Inr '''' \<rparr>"

definition unsetEnv :: env where
  "unsetEnv = \<lparr>REACT_APP_API_BASE = None, REACT_APP_BACKEND_URL = Some ''///''\<rparr>"

definition notFoundResponse :: response where
  "notFoundResponse =
     \<lparr> status = 404, statusText = ''Not Found'', contentType = Some ''text/plain'',
       jsonBody = Inl (JsError ''SyntaxError'' ''Unexpected token'' ),
       textBody = Inr ''no such note'' \<rparr>"

definition noContentResponse :: response where
  "noContentResponse =
     \<lparr> status = 204, statusText = ''No Content'', contentType = None,
       jsonBody = Inl (JsError ''SyntaxError'' ''Unexpected end of JSON input''),
       textBody = Inr '''' \<rparr>"

text \<open>A backend that has no note: 404 with a text body for an update, 204 for a delete.\<close>

definition emptyBackend :: platform where
  "emptyBackend =
     \<lparr> fetch = (\<lambda>rq. if req_method rq = ''DELETE'' then Inr noContentResponse
                       else Inr notFoundResponse),
       stringify = (\<lambda>v. ''{}''),
       encodeURIComponent = (\<lambda>v. case v of JStr t \<Rightarrow> t | _ \<Rightarrow> '''') \<rparr>"

definition demoPayload :: jsval where
  "demoPayload = JObj 8 [(''title'', JStr ''Alpha''), (''content'', JStr ''first'')]"

definition brokenPlatform :: platform where
  "brokenPlatform =
     \<lparr> fetch = (\<lambda>rq. Inr brokenResponse), stringify = (\<lambda>v. ''{}''),
       encodeURIComponent = (\<lambda>v. case v of JStr t \<Rightarrow> t | _ \<Rightarrow> '''') \<rparr>"

section \<open>Concrete states and servers\<close>

definition noteA :: cnote where
  "noteA = \<lparr> note_id = JStr ''a'', title = JStr ''Alpha'', content = JStr ''first'',
             updatedAt = JStr ''2024-05-02T08:00:00.000Z'',
             createdAt = JStr ''2024-05-01T08:00:00.000Z'',
             raw = JObj 1 [(''id'', JStr ''a''), (''title'', JStr ''Alpha''),
                           (''content'', JStr ''first'')] \<rparr>"

definition noteB :: cnote where
  "noteB = \<lparr> note_id = JStr ''b'', title = JStr ''Beta'', content = JStr ''second'',
             updatedAt = JStr ''2024-05-01T09:00:00.000Z'',
             createdAt = JStr ''2024-05-01T09:00:00.000Z'',
             raw = JObj 2 [(''id'', JStr ''b''), (''title'', JStr ''Beta''),
                           (''content'', JStr ''second'')] \<rparr>"

text \<open>A note whose \<^verbatim>\<open>updatedAt\<close> is no date; one whose title is a number; and two whose
  timestamps are numbers, \<^verbatim>\<open>updatedAt\<close> 0 with \<^verbatim>\<open>createdAt\<close> 100, and \<^verbatim>\<open>updatedAt\<close> 50.\<close>

definition noteG :: cnote where
  "noteG = \<lparr> note_id = JStr ''g'', title = JStr ''Gamma'', content = JStr ''third'',
             updatedAt = JStr ''garbage'',
             createdAt = JStr ''2024-05-01T08:00:00.000Z'',
             raw = JObj 10 [(''id'', JStr ''g''), (''updatedAt'', JStr ''garbage'')] \<rparr>"

definition noteN :: cnote where
  "noteN = \<lparr> note_id = JStr ''n'', title = JNum 7, content = JStr ''fourth'',
             updatedAt = JStr ''2024-05-01T08:00:00.000Z'',
             createdAt = JStr ''2024-05-01T08:00:00.000Z'',
             raw = JObj 11 [(''id'', JStr ''n''), (''title'', JNum 7)] \<rparr>"

definition noteZ :: cnote where
  "noteZ = \<lparr> note_id = JStr ''z'', title = JStr ''Zero'', content = JStr '''',
             updatedAt = JNum 0, createdAt = JNum 100,
             raw = JObj 12 [(''id'', JStr ''z''), (''updatedAt'', JNum 0),
                            (''createdAt'', JNum 100)] \<rparr>"

definition noteY :: cnote where
  "noteY = \<lparr> note_id = JStr ''y'', title = JStr ''Fifty'', content = JStr '''',
             updatedAt = JNum 50, createdAt = JNum 50,
             raw = JObj 13 [(''id'', JStr ''y''), (''updatedAt'', JNum 50),
                            (''createdAt'', JNum 50)] \<rparr>"

text \<open>The notes A and B loaded, A selected, the draft as the effect left it.\<close>

definition stateAB :: state where
  "stateAB = \<lparr> notes' = [noteA, noteB], selectedId = JStr ''a'', search = '''',
               draftTitle = JStr ''Alpha'', draftContent = JStr ''first'',
               isLoading = False, isSaving = False, isDeleting = False, toast = None \<rparr>"

text \<open>No selection, and a title of three spaces typed into the editor.\<close>

definition stateBlank :: state where
  "stateBlank = \<lparr> notes' = [noteA, noteB], selectedId = JNull, search = '''',
                  draftTitle = JStr ''   '', draftContent = JStr '''',
                  isLoading = False, isSaving = False, isDeleting = False, toast = None \<rparr>"

text \<open>A server that answers every call with the record of note A, edited; one whose every
  call fails; and one that answers the list call with a string.\<close>

definition serverRecord :: jsval where
  "serverRecord = JObj 9 [(''id'', JStr ''a''), (''title'', JStr ''Alpha''),
     (''content'', JStr ''first''), (''updatedAt'', JStr ''2024-05-03T08:00:00.000Z''),
     (''createdAt'', JStr ''2024-05-01T08:00:00.000Z'')]"

definition okApi :: api where
  "okApi c = Inr serverRecord"

definition downApi :: api where
  "downApi c = Inl (mkError ''Network error contacting backend at http://api. Failed to fetch'')"

definition oddApi :: api where
  "oddApi c = Inr (JStr ''maintenance'')"

definition nullRecordApi :: api where
  "nullRecordApi c = Inr (JArr 3 [JNull])"

definition fixedClock :: "nat \<Rightarrow> string \<times> string" where
  "fixedClock i = (''2024-06-01T00:00:00.000Z'', ''2024-06-01T00:00:00.001Z'')"

text \<open>State A-B with the title edited; a server whose list answer has a string under
  \<^verbatim>\<open>notes\<close>; one that answers a save with \<^verbatim>\<open>null\<close> (a 204).\<close>

definition stateEdited :: state where
  "stateEdited = stateAB\<lparr>draftTitle := JStr ''Alpha 2''\<rparr>"

definition badEnvelopeApi :: api where
  "badEnvelopeApi c = Inr (JObj 4 [(''notes'', JStr ''none'')])"

definition nullApi :: api where
  "nullApi c = Inr JNull"

section \<open>Normalisation\<close>

lemma getProp_optProp: "\<not> nullish n \<Longrightarrow> getProp n k = Inr (optProp n k)"
  by (cases n) (simp_all add: optProp_def)

lemma normalizeNote_nullish: "nullish n \<Longrightarrow> \<exists>e. normalizeNote now n = Inl e"
  by (cases n) (simp_all add: normalizeNote_def)

text \<open>
  C7. For every server record (any value but \<^verbatim>\<open>undefined\<close> and \<^verbatim>\<open>null\<close>, on which the
  first property read throws), normalisation succeeds; the canonical id is the first
  present of id, _id, noteId, uuid; the canonical updatedAt is the first present of
  updatedAt, updated_at, modifiedAt, modified_at, and the clock's reading when none is;
  the canonical createdAt is the first present of createdAt, created_at, and the clock's
  reading when none is. In particular a record with _id and no id gets the _id value as
  id, and a record with updated_at and no updatedAt gets the updated_at value as
  updatedAt.
\<close>

theorem normalizeNote_fields:
  assumes "\<not> nullish n"
  shows "\<exists>c. normalizeNote now n = Inr c
           \<and> raw c = n
           \<and> (case firstPresent n idFields of Some v \<Rightarrow> note_id c = v | None \<Rightarrow> nullish (note_id c))
           \<and> updatedAt c = (case firstPresent n updatedFields of Some v \<Rightarrow> v | None \<Rightarrow> JStr (fst now))
           \<and> createdAt c = (case firstPresent n createdFields of Some v \<Rightarrow> v | None \<Rightarrow> JStr (snd now))
           \<and> (nullish (optProp n ''id'') \<and> \<not> nullish (optProp n ''_id'')
                \<longrightarrow> note_id c = optProp n ''_id'')
           \<and> (nullish (optProp n ''updatedAt'') \<and> \<not> nullish (optProp n ''updated_at'')
                \<longrightarrow> updatedAt c = optProp n ''updated_at'')"
  using assms
  by (simp add: normalizeNote_def getProp_optProp nullishOr_def idFields_def
      updatedFields_def createdFields_def)

theorem normalizeNote_fields_witness:
  "\<not> nullish demoRecord
   \<and> (\<exists>c. normalizeNote (''t1'', ''t2'') demoRecord = Inr c
        \<and> note_id c = JStr ''n1''
        \<and> updatedAt c = JStr ''2024-05-01T10:00:00.000Z''
        \<and> createdAt c = JStr ''t2'')"
  using normalizeNote_fields [of demoRecord "(''t1'', ''t2'')"]
  by (auto simp: demoRecord_def optProp_def idFields_def updatedFields_def createdFields_def)


section \<open>Rendering and the handlers: basic facts\<close>

lemma strictEq_refl: "strictEq v v"
  by (cases v) simp_all

lemma afterRender_same: "selectedId s' = selectedId s \<Longrightarrow> afterRender s s' = s'"
  by (simp add: afterRender_def objectIs_def strictEq_refl)

lemma draftSync_frame:
  "notes' (draftSync s) = notes' s" "selectedId (draftSync s) = selectedId s"
  "toast (draftSync s) = toast s" "isLoading (draftSync s) = isLoading s"
  "isSaving (draftSync s) = isSaving s" "isDeleting (draftSync s) = isDeleting s"
  "search (draftSync s) = search s"
  by (simp_all add: draftSync_def split: option.splits)

lemma afterRender_frame:
  "notes' (afterRender p s) = notes' s" "selectedId (afterRender p s) = selectedId s"
  "toast (afterRender p s) = toast s" "isLoading (afterRender p s) = isLoading s"
  "isSaving (afterRender p s) = isSaving s" "isDeleting (afterRender p s) = isDeleting s"
  "search (afterRender p s) = search s"
  by (simp_all add: afterRender_def draftSync_frame)

section \<open>Cancellation of the initial load\<close>

text \<open>
  C5. If the load's effect was cleaned up before the list request settles, the settling
  changes nothing, whether the request resolved or rejected and whatever it resolved
  with: the state is the state of that moment, and no error leaves the handler. For a
  page torn down right after mounting, the collection is still empty, nothing is
  selected and no toast is set.
\<close>

theorem load_cancelled_noop:
  "load_settle True clock res s = \<lparr>st = s, calls = [], uncaught = None\<rparr>
   \<and> notes' (onMount True api clock) = []
   \<and> selectedId (onMount True api clock) = JNull
   \<and> toast (onMount True api clock) = None
   \<and> uncaught (load True api clock initialState) = None"
proof -
  have settle: "load_settle True clock r t = \<lparr>st = t, calls = [], uncaught = None\<rparr>" for r t
    by (simp add: load_settle_def split: sum.splits)
  have run: "st (load True api clock initialState) = initialState\<lparr>isLoading := True, toast := None\<rparr>"
    by (simp add: load_def load_begin_def settle)
  have "onMount True api clock = initialState\<lparr>isLoading := True, toast := None\<rparr>"
    unfolding onMount_def onLoad_def run by (rule afterRender_same) simp
  then show ?thesis
    by (simp add: settle load_def load_begin_def initialState_def)
qed

section \<open>A list response of an unrecognised shape\<close>

lemma responseRecords_unrecognised:
  "\<not> isArray res \<Longrightarrow> \<not> truthy (optProp res ''notes'') \<Longrightarrow> responseRecords res = Inr []"
  by (cases res) (simp_all add: responseRecords_def orElse_def)

text \<open>
  C10. If the list call resolves with a value that is neither an array nor a value whose
  \<^verbatim>\<open>notes\<close> property is truthy, the load succeeds with no notes: the collection becomes
  empty, a selection made before is kept and otherwise there is none, the toast stays
  cleared, the loading flag is cleared and nothing is thrown. At mount, where nothing is
  selected, the page ends with an empty collection, no selection and no toast.
\<close>

theorem load_unrecognised_shape:
  assumes "\<not> isArray res" and "\<not> truthy (optProp res ''notes'')"
  shows "load_settle False clock (Inr res) s =
           \<lparr>st = s\<lparr>notes' := [], selectedId := nullishOr (selectedId s) JNull, isLoading := False\<rparr>,
            calls = [], uncaught = None\<rparr>
         \<and> (api ListNotes = Inr res \<longrightarrow>
              onMount False api clock = initialState\<lparr>isLoading := False\<rparr>
              \<and> notes' (onMount False api clock) = []
              \<and> selectedId (onMount False api clock) = JNull
              \<and> toast (onMount False api clock) = None
              \<and> uncaught (load False api clock initialState) = None)"
proof -
  have settle: "load_settle False clock (Inr res) t =
      \<lparr>st = t\<lparr>notes' := [], selectedId := nullishOr (selectedId t) JNull, isLoading := False\<rparr>,
       calls = [], uncaught = None\<rparr>" for t
    by (simp add: load_settle_def responseRecords_unrecognised [OF assms] firstId_def)
  have mount: "onMount False api clock = initialState\<lparr>isLoading := False\<rparr>"
    if "api ListNotes = Inr res"
  proof -
    have "st (load False api clock initialState) = initialState\<lparr>isLoading := False\<rparr>"
      by (simp add: load_def load_begin_def that settle nullishOr_def initialState_def)
    then show ?thesis
      unfolding onMount_def onLoad_def by (simp add: afterRender_same)
  qed
  show ?thesis
    using mount by (auto simp: settle load_def load_begin_def initialState_def)
qed

theorem load_unrecognised_shape_witness:
  "\<not> isArray (JStr ''maintenance'') \<and> \<not> truthy (optProp (JStr ''maintenance'') ''notes'')
   \<and> oddApi ListNotes = Inr (JStr ''maintenance'')
   \<and> onMount False oddApi fixedClock = initialState\<lparr>isLoading := False\<rparr>
   \<and> notes' (onMount False oddApi fixedClock) = []
   \<and> selectedId (onMount False oddApi fixedClock) = JNull
   \<and> toast (onMount False oddApi fixedClock) = None
   \<and> st (load_settle False fixedClock (Inr JNull) stateAB)
       = stateAB\<lparr>notes' := [], isLoading := False\<rparr>
   \<and> st (load_settle False fixedClock (Inr (JNum 42)) stateAB)
       = stateAB\<lparr>notes' := [], isLoading := False\<rparr>
   \<and> st (load_settle False fixedClock (Inr (JObj 5 [(''items'', JArr 6 [])])) stateAB)
       = stateAB\<lparr>notes' := [], isLoading := False\<rparr>"
  using load_unrecognised_shape [of "JStr ''maintenance''" fixedClock initialState oddApi]
    load_unrecognised_shape [of JNull fixedClock stateAB oddApi]
    load_unrecognised_shape [of "JNum 42" fixedClock stateAB oddApi]
    load_unrecognised_shape [of "JObj 5 [(''items'', JArr 6 [])]" fixedClock stateAB oddApi]
  by (simp add: optProp_def oddApi_def initialState_def stateAB_def nullishOr_def)

section \<open>The new-note intent\<close>

lemma onNew_unselected:
  "selectedId s = JNull \<Longrightarrow>
   onNew s = s\<lparr>toast := None, draftTitle := JStr ''Untitled'', draftContent := JStr ''''\<rparr>"
  by (simp add: onNew_def handleNew_def afterRender_same)

lemma onNew_selected:
  assumes "\<not> strictEq (selectedId s) JNull"
      and "\<forall>n\<in>set (notes' s). \<not> strictEq (note_id n) JNull"
  shows "onNew s =
           s\<lparr>toast := None, selectedId := JNull, draftTitle := JStr '''', draftContent := JStr ''''\<rparr>"
proof -
  have "find (\<lambda>n. strictEq (note_id n) JNull) (notes' s) = None"
    using assms(2) by (simp add: find_None_iff)
  then show ?thesis
    using assms(1)
    by (simp add: onNew_def handleNew_def afterRender_def objectIs_def draftSync_def selected_def)
qed

text \<open>
  C1, at a state the claim covers: notes A and B, A selected. The handler sets the draft
  to ("Untitled", ""); the render that follows sees a new \<^verbatim>\<open>selectedId\<close>, runs the
  draft-sync effect with no selected note, and the draft ends as ("", ""). The toast is
  cleared, nothing is selected and no API call is made.
\<close>

theorem onNew_after_selection:
  "draftTitle (st (handleNew stateAB)) = JStr ''Untitled''
   \<and> draftTitle (onNew stateAB) = JStr ''''
   \<and> draftContent (onNew stateAB) = JStr ''''
   \<and> selectedId (onNew stateAB) = JNull
   \<and> toast (onNew stateAB) = None
   \<and> calls (handleNew stateAB) = []"
  by (simp add: onNew_def handleNew_def afterRender_def objectIs_def draftSync_def
      selected_def stateAB_def noteA_def noteB_def)



section \<open>Delete\<close>

lemma handleDelete_success:
  assumes "truthy (selectedId s)" and "api (DeleteNote (selectedId s)) = Inr v"
  shows "st (handleDelete api s) =
           s\<lparr>toast := Some \<lparr>kind = ToastSuccess, message = ''Note deleted.''\<rparr>,
             notes' := filter (\<lambda>n. \<not> strictEq (note_id n) (selectedId s)) (notes' s),
             selectedId := firstId (filter (\<lambda>n. \<not> strictEq (note_id n) (selectedId s)) (notes' s)),
             isDeleting := False\<rparr>"
  using assms by (simp add: handleDelete_def handleDelete_begin_def handleDelete_settle_def setSuccess_def)

lemma filter_single_occurrence:
  assumes "P n" and "\<forall>m\<in>set (xs @ ys). \<not> P m"
  shows "filter (\<lambda>m. \<not> P m) (xs @ n # ys) = xs @ ys"
  using assms by (simp add: filter_id_conv)

text \<open>
  C3. When a note is selected (\<^verbatim>\<open>selectedId\<close> is truthy) and the delete call resolves, the
  page ends with the collection without the entries of that id, in their old order; the
  selection is the id of the first entry that remains in the collection's own order
  (none when nothing remains, or when that entry has no id); the toast is the success
  message "Note deleted."; exactly one delete call was made. Where the selected id
  occurs once in the collection, exactly that entry is gone. With the collection [A, B]
  and A selected the result is [B] with B selected.
\<close>

theorem delete_success:
  assumes "truthy (selectedId s)" and "api (DeleteNote (selectedId s)) = Inr v"
  shows "notes' (onDelete api s) = filter (\<lambda>n. \<not> strictEq (note_id n) (selectedId s)) (notes' s)
         \<and> selectedId (onDelete api s) = firstId (notes' (onDelete api s))
         \<and> (notes' (onDelete api s) = [] \<longrightarrow> selectedId (onDelete api s) = JNull)
         \<and> (\<forall>n rest. notes' (onDelete api s) = n # rest \<and> \<not> nullish (note_id n)
               \<longrightarrow> selectedId (onDelete api s) = note_id n)
         \<and> toast (onDelete api s) = Some \<lparr>kind = ToastSuccess, message = ''Note deleted.''\<rparr>
         \<and> \<not> isDeleting (onDelete api s)
         \<and> calls (handleDelete api s) = [DeleteNote (selectedId s)]
         \<and> (\<forall>xs n ys. notes' s = xs @ n # ys \<and> strictEq (note_id n) (selectedId s)
                 \<and> (\<forall>m\<in>set (xs @ ys). \<not> strictEq (note_id m) (selectedId s))
               \<longrightarrow> notes' (onDelete api s) = xs @ ys)
         \<and> (\<forall>a b. notes' s = [a, b] \<and> strictEq (note_id a) (selectedId s)
                 \<and> \<not> strictEq (note_id b) (selectedId s) \<and> \<not> nullish (note_id b)
               \<longrightarrow> notes' (onDelete api s) = [b] \<and> selectedId (onDelete api s) = note_id b)"
proof -
  let ?rest = "filter (\<lambda>n. \<not> strictEq (note_id n) (selectedId s)) (notes' s)"
  note run = handleDelete_success [where s = s and api = api and v = v, OF assms]
  have coll: "notes' (onDelete api s) = ?rest"
    by (simp add: onDelete_def afterRender_frame run)
  have sel: "selectedId (onDelete api s) = firstId ?rest"
    by (simp add: onDelete_def afterRender_frame run)
  have tst: "toast (onDelete api s) = Some \<lparr>kind = ToastSuccess, message = ''Note deleted.''\<rparr>"
    by (simp add: onDelete_def afterRender_frame run)
  have flag: "\<not> isDeleting (onDelete api s)"
    by (simp add: onDelete_def afterRender_frame run)
  have cs: "calls (handleDelete api s) = [DeleteNote (selectedId s)]"
    using assms by (simp add: handleDelete_def handleDelete_begin_def)
  have once: "notes' (onDelete api s) = xs @ ys"
    if "notes' s = xs @ n # ys" "strictEq (note_id n) (selectedId s)"
       "\<forall>m\<in>set (xs @ ys). \<not> strictEq (note_id m) (selectedId s)" for xs n ys
    unfolding coll that(1)
    by (rule filter_single_occurrence [of "\<lambda>m. strictEq (note_id m) (selectedId s)", OF that(2,3)])
  have empty: "selectedId (onDelete api s) = JNull" if "notes' (onDelete api s) = []"
    using that sel coll by (simp add: firstId_def)
  have front: "selectedId (onDelete api s) = note_id n"
    if "notes' (onDelete api s) = n # rest" "\<not> nullish (note_id n)" for n rest
    using that sel coll by (simp add: firstId_def nullishOr_def)
  have two: "notes' (onDelete api s) = [b] \<and> selectedId (onDelete api s) = note_id b"
    if "notes' s = [a, b]" "strictEq (note_id a) (selectedId s)"
       "\<not> strictEq (note_id b) (selectedId s)" "\<not> nullish (note_id b)" for a b
    using that sel coll by (simp add: firstId_def nullishOr_def)
  from coll sel tst flag cs once empty front two show ?thesis
    unfolding coll by blast
qed

theorem delete_success_witness:
  "truthy (selectedId stateAB) \<and> okApi (DeleteNote (selectedId stateAB)) = Inr serverRecord
   \<and> notes' stateAB = [noteA, noteB]
   \<and> notes' (onDelete okApi stateAB) = [noteB]
   \<and> selectedId (onDelete okApi stateAB) = JStr ''b''
   \<and> toast (onDelete okApi stateAB) = Some \<lparr>kind = ToastSuccess, message = ''Note deleted.''\<rparr>"
  using delete_success [of stateAB okApi serverRecord]
  by (simp add: stateAB_def okApi_def noteA_def noteB_def firstId_def nullishOr_def)



section \<open>Save\<close>

lemma handleSave_begin_Awaiting:
  assumes "handleSave_begin s = Awaiting s1 c"
  shows "\<exists>t b. js_trim (orElse (draftTitle s) (JStr '''')) = Inr t
            \<and> js_trimEnd (orElse (draftContent s) (JStr '''')) = Inr b
            \<and> t \<noteq> []
            \<and> s1 = s\<lparr>toast := None, isSaving := True\<rparr>
            \<and> c = (if \<not> truthy (selectedId s) then CreateNote t b
                     else UpdateNote (selectedId s) t b)"
  using assms by (auto simp: handleSave_begin_def Let_def split: sum.splits if_splits)

lemma handleSave_begin_Finished:
  assumes "handleSave_begin s = Finished s1"
  shows "s1 = s\<lparr>toast := Some \<lparr>kind = ToastError, message = ''Title is required.''\<rparr>\<rparr>
         \<and> js_trim (orElse (draftTitle s) (JStr '''')) = Inr []"
  using assms
  by (auto simp: handleSave_begin_def Let_def setError_def errText_def mkError_def
      split: sum.splits if_splits)

lemma handleSave_failed_request:
  assumes "handleSave_begin s = Awaiting s1 c"
      and "api c = Inl e \<or> (\<exists>v. api c = Inr v \<and> normalizeNote now v = Inl e)"
  shows "st (handleSave api now s) =
           s\<lparr>toast := Some \<lparr>kind = ToastError, message = errText e\<rparr>, isSaving := False\<rparr>"
proof -
  from handleSave_begin_Awaiting [OF assms(1)]
  have s1: "s1 = s\<lparr>toast := None, isSaving := True\<rparr>" by blast
  from assms(2) have "handleSave_settle (selectedId s) now (api c) s1 =
      s\<lparr>toast := Some \<lparr>kind = ToastError, message = errText e\<rparr>, isSaving := False\<rparr>"
    by (auto simp: handleSave_settle_def setError_def s1)
  then show ?thesis
    by (simp add: handleSave_def assms(1))
qed

text \<open>A draft that is not a string makes \<^verbatim>\<open>trim\<close> or \<^verbatim>\<open>trimEnd\<close> throw before the
  \<^verbatim>\<open>try\<close>: the error leaves the handler, after the toast was cleared and nothing else.\<close>

lemma handleSave_threw:
  assumes "handleSave_begin s = Threw s1 e"
  shows "onSave api now s = s\<lparr>toast := None\<rparr> \<and> calls (handleSave api now s) = []
         \<and> uncaught (handleSave api now s) = Some e"
proof -
  from assms have "s1 = s\<lparr>toast := None\<rparr>"
    by (auto simp: handleSave_begin_def Let_def split: sum.splits if_splits)
  then show ?thesis
    by (simp add: onSave_def handleSave_def assms afterRender_same)
qed

lemma mergeNote_new: "mergeNote m n = n"
  by (simp add: mergeNote_def)

text \<open>
  C8. When a note is selected, the draft passes validation, the update call resolves and
  its result normalises, the call made is the update of the selected id; every entry of
  the collection whose id is the selected id is replaced by the merge of that entry with
  the normalised result, in which each field is the normalised result's; every other
  entry, the length and the order of the collection, the selection and the draft are
  unchanged; the toast is the success message "Note saved." and the saving flag is
  cleared.
\<close>

theorem save_update_success:
  assumes "truthy (selectedId s)"
      and "handleSave_begin s = Awaiting s1 c"
      and "api c = Inr v"
      and "normalizeNote now v = Inr n"
  shows "(\<exists>t b. c = UpdateNote (selectedId s) t b)
         \<and> calls (handleSave api now s) = [c]
         \<and> onSave api now s =
             s\<lparr>toast := Some \<lparr>kind = ToastSuccess, message = ''Note saved.''\<rparr>,
               notes' := map (\<lambda>m. if strictEq (note_id m) (selectedId s) then mergeNote m n else m)
                           (notes' s),
               isSaving := False\<rparr>
         \<and> selectedId (onSave api now s) = selectedId s
         \<and> length (notes' (onSave api now s)) = length (notes' s)
         \<and> (\<forall>i<length (notes' s).
               notes' (onSave api now s) ! i =
                 (if strictEq (note_id (notes' s ! i)) (selectedId s)
                  then mergeNote (notes' s ! i) n else notes' s ! i))
         \<and> (\<forall>m. note_id (mergeNote m n) = note_id n \<and> title (mergeNote m n) = title n
                \<and> content (mergeNote m n) = content n \<and> updatedAt (mergeNote m n) = updatedAt n
                \<and> createdAt (mergeNote m n) = createdAt n \<and> raw (mergeNote m n) = raw n)
         \<and> toast (onSave api now s) = Some \<lparr>kind = ToastSuccess, message = ''Note saved.''\<rparr>"
proof -
  from handleSave_begin_Awaiting [OF assms(2)] assms(1)
  obtain t b where s1: "s1 = s\<lparr>toast := None, isSaving := True\<rparr>"
    and c: "c = UpdateNote (selectedId s) t b"
    by auto
  have run: "st (handleSave api now s) =
      s\<lparr>toast := Some \<lparr>kind = ToastSuccess, message = ''Note saved.''\<rparr>,
        notes' := map (\<lambda>m. if strictEq (note_id m) (selectedId s) then mergeNote m n else m)
                    (notes' s),
        isSaving := False\<rparr>"
    using assms(1)
    by (simp add: handleSave_def assms(2) assms(3) handleSave_settle_def assms(4) setSuccess_def s1)
  have ev: "onSave api now s = st (handleSave api now s)"
    unfolding onSave_def by (rule afterRender_same) (simp add: run)
  have cs: "calls (handleSave api now s) = [c]"
    by (simp add: handleSave_def assms(2))
  show ?thesis
    using c cs by (simp add: ev run mergeNote_def)
qed

theorem save_update_success_witness:
  "truthy (selectedId stateEdited)
   \<and> handleSave_begin stateEdited =
       Awaiting (stateEdited\<lparr>toast := None, isSaving := True\<rparr>) (UpdateNote (JStr ''a'') ''Alpha 2'' ''first'')
   \<and> (\<exists>n. normalizeNote (fixedClock 0) serverRecord = Inr n
        \<and> notes' (onSave okApi (fixedClock 0) stateEdited) = [n, noteB]
        \<and> title n = JStr ''Alpha''
        \<and> updatedAt n = JStr ''2024-05-03T08:00:00.000Z'')
   \<and> selectedId (onSave okApi (fixedClock 0) stateEdited) = JStr ''a''
   \<and> draftTitle (onSave okApi (fixedClock 0) stateEdited) = JStr ''Alpha 2''
   \<and> toast (onSave okApi (fixedClock 0) stateEdited)
       = Some \<lparr>kind = ToastSuccess, message = ''Note saved.''\<rparr>"
proof -
  have sel: "truthy (selectedId stateEdited)"
    by (simp add: stateEdited_def stateAB_def)
  have beg: "handleSave_begin stateEdited =
      Awaiting (stateEdited\<lparr>toast := None, isSaving := True\<rparr>) (UpdateNote (JStr ''a'') ''Alpha 2'' ''first'')"
    by (simp add: handleSave_begin_def stateEdited_def stateAB_def orElse_def trim_def
        trimStart_def trimEnd_def isWhiteSpace_def)
  have res: "okApi (UpdateNote (JStr ''a'') ''Alpha 2'' ''first'') = Inr serverRecord"
    by (simp add: okApi_def)
  obtain n where n: "normalizeNote (fixedClock 0) serverRecord = Inr n"
    and tn: "title n = JStr ''Alpha''" and un: "updatedAt n = JStr ''2024-05-03T08:00:00.000Z''"
    by (simp add: normalizeNote_def serverRecord_def optProp_def nullishOr_def)
  from save_update_success [where api = okApi, OF sel beg res n]
  have "onSave okApi (fixedClock 0) stateEdited =
      stateEdited\<lparr>toast := Some \<lparr>kind = ToastSuccess, message = ''Note saved.''\<rparr>,
        notes' := map (\<lambda>m. if strictEq (note_id m) (selectedId stateEdited) then mergeNote m n else m)
                    (notes' stateEdited),
        isSaving := False\<rparr>"
    by blast
  then have "notes' (onSave okApi (fixedClock 0) stateEdited) = [n, noteB]
      \<and> selectedId (onSave okApi (fixedClock 0) stateEdited) = JStr ''a''
      \<and> draftTitle (onSave okApi (fixedClock 0) stateEdited) = JStr ''Alpha 2''
      \<and> toast (onSave okApi (fixedClock 0) stateEdited)
          = Some \<lparr>kind = ToastSuccess, message = ''Note saved.''\<rparr>"
    by (simp add: stateEdited_def stateAB_def noteA_def noteB_def mergeNote_new)
  with sel beg n tn un show ?thesis by blast
qed



section \<open>Failing actions\<close>

lemma handleDelete_invalid:
  assumes "\<not> truthy (selectedId s)"
  shows "handleDelete api s =
           \<lparr>st = s\<lparr>toast := Some \<lparr>kind = ToastError, message = ''Select a note to delete.''\<rparr>\<rparr>,
            calls = [], uncaught = None\<rparr>"
  using assms
  by (simp add: handleDelete_def handleDelete_begin_def setError_def errText_def mkError_def)

lemma handleDelete_failed_request:
  assumes "truthy (selectedId s)" and "api (DeleteNote (selectedId s)) = Inl e"
  shows "st (handleDelete api s) =
           s\<lparr>toast := Some \<lparr>kind = ToastError, message = errText e\<rparr>, isDeleting := False\<rparr>"
  using assms
  by (simp add: handleDelete_def handleDelete_begin_def handleDelete_settle_def setError_def)

lemma load_failed:
  assumes "api ListNotes = Inl e
           \<or> (\<exists>v. api ListNotes = Inr v \<and> responseRecords v = Inl e)
           \<or> (\<exists>v arr. api ListNotes = Inr v \<and> responseRecords v = Inr arr
                 \<and> normalizeEach clock 0 arr = Inl e)"
  shows "st (load False api clock s) =
           s\<lparr>toast := Some \<lparr>kind = ToastError, message = errText e\<rparr>, isLoading := False\<rparr>"
  using assms
  by (auto simp: load_def load_begin_def load_settle_def setError_def)

text \<open>
  The same for a request that settles later, on whatever state the page has by then: a
  failure touches the toast and the action's flag only.
\<close>

lemma settle_failure_frame:
  "handleSave_settle sid now (Inl e) s =
     s\<lparr>toast := Some \<lparr>kind = ToastError, message = errText e\<rparr>, isSaving := False\<rparr>"
  "handleDelete_settle ns sid (Inl e) s =
     s\<lparr>toast := Some \<lparr>kind = ToastError, message = errText e\<rparr>, isDeleting := False\<rparr>"
  "st (load_settle False clock (Inl e) s) =
     s\<lparr>toast := Some \<lparr>kind = ToastError, message = errText e\<rparr>, isLoading := False\<rparr>"
  by (simp_all add: handleSave_settle_def handleDelete_settle_def load_settle_def setError_def)

text \<open>
  C4. Every failing run of the load, of a save and of a delete ends in the state it
  started from but for the toast, which is an error toast, and the action's in-flight
  flag, which is false when a request was made and untouched by a validation failure.
  The collection, the selection and the draft are as before. The failing runs are: a
  save whose trimmed title is empty; a save whose request rejects or whose result does
  not normalise; a delete without a selection; a delete whose request rejects; a load
  whose request rejects, whose response has a \<^verbatim>\<open>notes\<close> value that is not an array, or one of
  whose records does not normalise. A validation failure makes no API call.
\<close>

theorem failed_action_leaves_state:
  "(handleSave_begin s = Finished s1 \<longrightarrow>
      onSave api now s = s\<lparr>toast := Some \<lparr>kind = ToastError, message = ''Title is required.''\<rparr>\<rparr>
      \<and> calls (handleSave api now s) = [])
   \<and> (handleSave_begin s = Awaiting s1 c \<and> api c = Inl e \<longrightarrow>
      onSave api now s =
        s\<lparr>toast := Some \<lparr>kind = ToastError, message = errText e\<rparr>, isSaving := False\<rparr>)
   \<and> (handleSave_begin s = Awaiting s1 c \<and> api c = Inr v \<and> normalizeNote now v = Inl e \<longrightarrow>
      onSave api now s =
        s\<lparr>toast := Some \<lparr>kind = ToastError, message = errText e\<rparr>, isSaving := False\<rparr>)
   \<and> (\<not> truthy (selectedId s) \<longrightarrow>
      onDelete api s = s\<lparr>toast := Some \<lparr>kind = ToastError, message = ''Select a note to delete.''\<rparr>\<rparr>
      \<and> calls (handleDelete api s) = [])
   \<and> (truthy (selectedId s) \<and> api (DeleteNote (selectedId s)) = Inl e \<longrightarrow>
      onDelete api s =
        s\<lparr>toast := Some \<lparr>kind = ToastError, message = errText e\<rparr>, isDeleting := False\<rparr>)
   \<and> (api ListNotes = Inl e \<longrightarrow>
      onLoad False api clock s =
        s\<lparr>toast := Some \<lparr>kind = ToastError, message = errText e\<rparr>, isLoading := False\<rparr>)
   \<and> (api ListNotes = Inr v \<and> responseRecords v = Inl e \<longrightarrow>
      onLoad False api clock s =
        s\<lparr>toast := Some \<lparr>kind = ToastError, message = errText e\<rparr>, isLoading := False\<rparr>)
   \<and> (api ListNotes = Inr v \<and> responseRecords v = Inr arr \<and> normalizeEach clock 0 arr = Inl e \<longrightarrow>
      onLoad False api clock s =
        s\<lparr>toast := Some \<lparr>kind = ToastError, message = errText e\<rparr>, isLoading := False\<rparr>)"
proof -
  have save_invalid: "onSave api now s =
        s\<lparr>toast := Some \<lparr>kind = ToastError, message = ''Title is required.''\<rparr>\<rparr>
      \<and> calls (handleSave api now s) = []"
    if h: "handleSave_begin s = Finished s1"
  proof -
    from handleSave_begin_Finished [OF h]
    have "st (handleSave api now s) =
        s\<lparr>toast := Some \<lparr>kind = ToastError, message = ''Title is required.''\<rparr>\<rparr>"
      by (simp add: handleSave_def h)
    then show ?thesis
      by (simp add: onSave_def afterRender_same handleSave_def h)
  qed
  have save_failed: "onSave api now s =
        s\<lparr>toast := Some \<lparr>kind = ToastError, message = errText e\<rparr>, isSaving := False\<rparr>"
    if h: "handleSave_begin s = Awaiting s1 c"
      and r: "api c = Inl e \<or> (\<exists>v. api c = Inr v \<and> normalizeNote now v = Inl e)"
    using handleSave_failed_request [where api = api, OF h r]
    by (simp add: onSave_def afterRender_same)
  have delete_invalid: "onDelete api s =
        s\<lparr>toast := Some \<lparr>kind = ToastError, message = ''Select a note to delete.''\<rparr>\<rparr>
      \<and> calls (handleDelete api s) = []"
    if h: "\<not> truthy (selectedId s)"
    by (simp add: onDelete_def handleDelete_invalid [OF h] afterRender_same)
  have delete_failed: "onDelete api s =
        s\<lparr>toast := Some \<lparr>kind = ToastError, message = errText e\<rparr>, isDeleting := False\<rparr>"
    if h: "truthy (selectedId s)" and r: "api (DeleteNote (selectedId s)) = Inl e"
    using handleDelete_failed_request [where api = api, OF h r]
    by (simp add: onDelete_def afterRender_same)
  have load_fails: "onLoad False api clock s =
        s\<lparr>toast := Some \<lparr>kind = ToastError, message = errText e\<rparr>, isLoading := False\<rparr>"
    if r: "api ListNotes = Inl e
           \<or> (\<exists>v. api ListNotes = Inr v \<and> responseRecords v = Inl e)
           \<or> (\<exists>v arr. api ListNotes = Inr v \<and> responseRecords v = Inr arr
                 \<and> normalizeEach clock 0 arr = Inl e)"
    using load_failed [where api = api and s = s, OF r]
    by (simp add: onLoad_def afterRender_same)
  show ?thesis
    using save_invalid save_failed delete_invalid delete_failed load_fails by blast
qed

theorem failed_action_leaves_state_witness:
  "handleSave_begin stateBlank =
       Finished (stateBlank\<lparr>toast := Some \<lparr>kind = ToastError, message = ''Title is required.''\<rparr>\<rparr>)
   \<and> onSave okApi (fixedClock 0) stateBlank =
       stateBlank\<lparr>toast := Some \<lparr>kind = ToastError, message = ''Title is required.''\<rparr>\<rparr>
   \<and> handleSave_begin stateEdited =
       Awaiting (stateEdited\<lparr>toast := None, isSaving := True\<rparr>)
         (UpdateNote (JStr ''a'') ''Alpha 2'' ''first'')
   \<and> onSave downApi (fixedClock 0) stateEdited =
       stateEdited\<lparr>toast := Some \<lparr>kind = ToastError,
         message = ''Network error contacting backend at http://api. Failed to fetch''\<rparr>\<rparr>
   \<and> onSave nullApi (fixedClock 0) stateEdited =
       stateEdited\<lparr>toast := Some \<lparr>kind = ToastError,
         message = ''Cannot read properties of null (reading id)''\<rparr>\<rparr>
   \<and> \<not> truthy (selectedId stateBlank)
   \<and> onDelete okApi stateBlank =
       stateBlank\<lparr>toast := Some \<lparr>kind = ToastError, message = ''Select a note to delete.''\<rparr>\<rparr>
   \<and> truthy (selectedId stateAB)
   \<and> onDelete downApi stateAB =
       stateAB\<lparr>toast := Some \<lparr>kind = ToastError,
         message = ''Network error contacting backend at http://api. Failed to fetch''\<rparr>\<rparr>
   \<and> onLoad False downApi fixedClock initialState =
       initialState\<lparr>toast := Some \<lparr>kind = ToastError,
         message = ''Network error contacting backend at http://api. Failed to fetch''\<rparr>,
         isLoading := False\<rparr>
   \<and> onLoad False badEnvelopeApi fixedClock initialState =
       initialState\<lparr>toast := Some \<lparr>kind = ToastError, message = ''arr.map is not a function''\<rparr>,
         isLoading := False\<rparr>
   \<and> onLoad False nullRecordApi fixedClock initialState =
       initialState\<lparr>toast := Some \<lparr>kind = ToastError,
         message = ''Cannot read properties of null (reading id)''\<rparr>, isLoading := False\<rparr>"
proof -
  let ?down = "mkError ''Network error contacting backend at http://api. Failed to fetch''"
  let ?nullErr = "mkTypeError ''Cannot read properties of null (reading id)''"
  have b1: "handleSave_begin stateBlank =
      Finished (stateBlank\<lparr>toast := Some \<lparr>kind = ToastError, message = ''Title is required.''\<rparr>\<rparr>)"
    by (simp add: handleSave_begin_def stateBlank_def orElse_def trim_def trimStart_def
        trimEnd_def isWhiteSpace_def setError_def errText_def mkError_def)
  have b2: "handleSave_begin stateEdited =
      Awaiting (stateEdited\<lparr>toast := None, isSaving := True\<rparr>)
        (UpdateNote (JStr ''a'') ''Alpha 2'' ''first'')"
    by (simp add: handleSave_begin_def stateEdited_def stateAB_def orElse_def trim_def
        trimStart_def trimEnd_def isWhiteSpace_def)
  have flags: "isSaving stateEdited = False" "isDeleting stateAB = False" "toast stateBlank = None"
    by (simp_all add: stateEdited_def stateAB_def stateBlank_def)
  have d1: "\<not> truthy (selectedId stateBlank)" by (simp add: stateBlank_def)
  have d2: "truthy (selectedId stateAB)" by (simp add: stateAB_def)
  have a1: "downApi c = Inl ?down" for c by (simp add: downApi_def)
  have a2: "nullApi c = Inr JNull" for c by (simp add: nullApi_def)
  have n2: "normalizeNote (fixedClock 0) JNull = Inl ?nullErr"
    by (simp add: normalizeNote_def)
  have l2: "badEnvelopeApi ListNotes = Inr (JObj 4 [(''notes'', JStr ''none'')])"
    "responseRecords (JObj 4 [(''notes'', JStr ''none'')]) = Inl (mkTypeError ''arr.map is not a function'')"
    by (simp_all add: badEnvelopeApi_def responseRecords_def optProp_def orElse_def)
  have l3: "nullRecordApi ListNotes = Inr (JArr 3 [JNull])"
    "responseRecords (JArr 3 [JNull]) = Inr [JNull]"
    "normalizeEach fixedClock 0 [JNull] = Inl ?nullErr"
    by (simp_all add: nullRecordApi_def responseRecords_def normalizeNote_def)
  note frame = failed_action_leaves_state
  have r1: "onSave okApi (fixedClock 0) stateBlank =
      stateBlank\<lparr>toast := Some \<lparr>kind = ToastError, message = ''Title is required.''\<rparr>\<rparr>"
    using frame [where s = stateBlank and api = okApi and now = "fixedClock 0"
        and ?s1.0 = "stateBlank\<lparr>toast := Some \<lparr>kind = ToastError, message = ''Title is required.''\<rparr>\<rparr>"]
      b1 by blast
  have r2: "onSave downApi (fixedClock 0) stateEdited =
      stateEdited\<lparr>toast := Some \<lparr>kind = ToastError, message = errText ?down\<rparr>, isSaving := False\<rparr>"
    using frame [where s = stateEdited and api = downApi and now = "fixedClock 0" and e = ?down
        and ?s1.0 = "stateEdited\<lparr>toast := None, isSaving := True\<rparr>"
        and c = "UpdateNote (JStr ''a'') ''Alpha 2'' ''first''"]
      b2 a1 by blast
  have r3: "onSave nullApi (fixedClock 0) stateEdited =
      stateEdited\<lparr>toast := Some \<lparr>kind = ToastError, message = errText ?nullErr\<rparr>, isSaving := False\<rparr>"
    using frame [where s = stateEdited and api = nullApi and now = "fixedClock 0" and e = ?nullErr
        and ?s1.0 = "stateEdited\<lparr>toast := None, isSaving := True\<rparr>"
        and c = "UpdateNote (JStr ''a'') ''Alpha 2'' ''first''" and v = JNull]
      b2 a2 n2 by blast
  have r4: "onDelete okApi stateBlank =
      stateBlank\<lparr>toast := Some \<lparr>kind = ToastError, message = ''Select a note to delete.''\<rparr>\<rparr>"
    using frame [where s = stateBlank and api = okApi] d1 by blast
  have r5: "onDelete downApi stateAB =
      stateAB\<lparr>toast := Some \<lparr>kind = ToastError, message = errText ?down\<rparr>, isDeleting := False\<rparr>"
    using frame [where s = stateAB and api = downApi and e = ?down] d2 a1 by blast
  have r6: "onLoad False downApi fixedClock initialState =
      initialState\<lparr>toast := Some \<lparr>kind = ToastError, message = errText ?down\<rparr>, isLoading := False\<rparr>"
    using frame [where s = initialState and api = downApi and e = ?down and clock = fixedClock] a1
    by blast
  have r7: "onLoad False badEnvelopeApi fixedClock initialState =
      initialState\<lparr>toast := Some \<lparr>kind = ToastError,
        message = errText (mkTypeError ''arr.map is not a function'')\<rparr>, isLoading := False\<rparr>"
    using frame [where s = initialState and api = badEnvelopeApi and clock = fixedClock
        and e = "mkTypeError ''arr.map is not a function''"
        and v = "JObj 4 [(''notes'', JStr ''none'')]"] l2
    by blast
  have r8: "onLoad False nullRecordApi fixedClock initialState =
      initialState\<lparr>toast := Some \<lparr>kind = ToastError, message = errText ?nullErr\<rparr>,
        isLoading := False\<rparr>"
    using frame [where s = initialState and api = nullRecordApi and clock = fixedClock
        and e = ?nullErr and v = "JArr 3 [JNull]" and arr = "[JNull]"] l3
    by blast
  have upd: "stateEdited\<lparr>toast := t, isSaving := False\<rparr> = stateEdited\<lparr>toast := t\<rparr>"
    "stateAB\<lparr>toast := t, isDeleting := False\<rparr> = stateAB\<lparr>toast := t\<rparr>" for t
    by (simp_all add: stateEdited_def stateAB_def)
  show ?thesis
    using b1 b2 d1 d2 r1 r2 r3 r4 r5 r6 r7 r8
    by (simp add: upd errText_def mkError_def mkTypeError_def)
qed



section \<open>When a save can be invoked\<close>

lemma hasEdits_identical:
  assumes "selected s = Some n" and "draftTitle s = title n" and "draftContent s = content n"
  shows "\<not> hasEdits s"
  using assms by (simp add: hasEdits_def strictEq_refl)

lemma handleSave_blank_title:
  assumes "js_trim (orElse (draftTitle s) (JStr '''')) = Inr []"
  shows "calls (handleSave api now s) = []
         \<and> (st (handleSave api now s))\<lparr>toast := toast s\<rparr> = s"
  using assms
  by (simp add: handleSave_def handleSave_begin_def Let_def setError_def split: sum.splits)

text \<open>
  C2, as stated, fails at the editor form. With note A selected and the draft equal to
  A's title and content, the header button is disabled but the form can be submitted; the
  submit runs the save, which calls the update of A and ends with the toast "Note saved.".
  With nothing selected and a title of three spaces, the header button is disabled but
  the form can be submitted; the save fails validation and sets the error toast.
\<close>

theorem save_form_not_guarded:
  "truthy (selectedId stateAB) \<and> selected stateAB = Some noteA
   \<and> draftTitle stateAB = title noteA \<and> draftContent stateAB = content noteA
   \<and> \<not> isSaving stateAB
   \<and> invokeSave okApi (fixedClock 0) HeaderSaveButton stateAB = None
   \<and> invokeSave okApi (fixedClock 0) EditorFormSubmit stateAB
       = Some (handleSave okApi (fixedClock 0) stateAB)
   \<and> calls (handleSave okApi (fixedClock 0) stateAB) = [UpdateNote (JStr ''a'') ''Alpha'' ''first'']
   \<and> toast (st (handleSave okApi (fixedClock 0) stateAB))
       = Some \<lparr>kind = ToastSuccess, message = ''Note saved.''\<rparr>
   \<and> \<not> truthy (selectedId stateBlank)
   \<and> js_trim (orElse (draftTitle stateBlank) (JStr '''')) = Inr ''''
   \<and> invokeSave okApi (fixedClock 0) HeaderSaveButton stateBlank = None
   \<and> invokeSave okApi (fixedClock 0) EditorFormSubmit stateBlank
       = Some (handleSave okApi (fixedClock 0) stateBlank)
   \<and> toast stateBlank = None
   \<and> toast (st (handleSave okApi (fixedClock 0) stateBlank))
       = Some \<lparr>kind = ToastError, message = ''Title is required.''\<rparr>"
proof -
  have sel: "selected stateAB = Some noteA"
    by (simp add: selected_def stateAB_def noteA_def)
  have hdrAB: "headerSaveDisabled stateAB = Inr True"
    by (simp add: headerSaveDisabled_def hasEdits_def sel) (simp add: stateAB_def noteA_def orElse_def)
  have formAB: "\<not> formSubmitBlocked stateAB"
    by (simp add: formSubmitBlocked_def stateAB_def)
  have begAB: "handleSave_begin stateAB =
      Awaiting (stateAB\<lparr>toast := None, isSaving := True\<rparr>) (UpdateNote (JStr ''a'') ''Alpha'' ''first'')"
    by (simp add: handleSave_begin_def stateAB_def orElse_def trim_def trimStart_def
        trimEnd_def isWhiteSpace_def)
  have runAB: "calls (handleSave okApi (fixedClock 0) stateAB) = [UpdateNote (JStr ''a'') ''Alpha'' ''first'']"
    "toast (st (handleSave okApi (fixedClock 0) stateAB))
       = Some \<lparr>kind = ToastSuccess, message = ''Note saved.''\<rparr>"
    by (simp_all add: handleSave_def begAB handleSave_settle_def okApi_def normalizeNote_def
        serverRecord_def setSuccess_def) (simp_all add: stateAB_def)
  have trimBlank: "js_trim (orElse (draftTitle stateBlank) (JStr '''')) = Inr ''''"
    by (simp add: stateBlank_def orElse_def trim_def trimStart_def trimEnd_def isWhiteSpace_def)
  have hdrBlank: "headerSaveDisabled stateBlank = Inr True"
    by (simp add: headerSaveDisabled_def trimBlank) (simp add: stateBlank_def)
  have formBlank: "\<not> formSubmitBlocked stateBlank"
    by (simp add: formSubmitBlocked_def stateBlank_def)
  have runBlank: "toast (st (handleSave okApi (fixedClock 0) stateBlank))
       = Some \<lparr>kind = ToastError, message = ''Title is required.''\<rparr>"
  proof -
    have "handleSave_begin stateBlank =
        Finished (stateBlank\<lparr>toast := Some \<lparr>kind = ToastError, message = ''Title is required.''\<rparr>\<rparr>)"
      by (simp add: handleSave_begin_def stateBlank_def orElse_def trim_def trimStart_def
          trimEnd_def isWhiteSpace_def setError_def errText_def mkError_def)
    then show ?thesis
      by (simp add: handleSave_def)
  qed
  show ?thesis
    using sel hdrAB formAB runAB trimBlank hdrBlank formBlank runBlank
    by (simp add: invokeSave_def) (simp add: stateAB_def stateBlank_def noteA_def)
qed

text \<open>
  C2, amended. While a save is in flight neither the header button nor the editor form
  can invoke a save. The header button cannot invoke a save when nothing is selected and
  the trimmed draft title is empty, nor when a note is selected (\<^verbatim>\<open>selectedId\<close> is truthy)
  and the draft has no edits, which is the case when the draft title and content are the
  selected note's. A save invoked with an empty trimmed title, by whatever way, makes no
  API call and changes nothing but the toast.
\<close>

theorem save_guards:
  "(isSaving s \<longrightarrow>
      invokeSave api now HeaderSaveButton s = None \<and> invokeSave api now EditorFormSubmit s = None)
   \<and> (\<not> truthy (selectedId s) \<and> js_trim (orElse (draftTitle s) (JStr '''')) = Inr [] \<longrightarrow>
      invokeSave api now HeaderSaveButton s = None)
   \<and> (js_trim (orElse (draftTitle s) (JStr '''')) = Inr [] \<longrightarrow>
      calls (handleSave api now s) = [] \<and> (st (handleSave api now s))\<lparr>toast := toast s\<rparr> = s)
   \<and> (truthy (selectedId s) \<and> \<not> hasEdits s \<longrightarrow> invokeSave api now HeaderSaveButton s = None)
   \<and> (truthy (selectedId s) \<and> selected s = Some n \<and> draftTitle s = title n
        \<and> draftContent s = content n \<longrightarrow> invokeSave api now HeaderSaveButton s = None)"
proof -
  have inflight: "invokeSave api now HeaderSaveButton s = None
      \<and> invokeSave api now EditorFormSubmit s = None" if "isSaving s"
    using that by (simp add: invokeSave_def headerSaveDisabled_def formSubmitBlocked_def)
  have blank: "invokeSave api now HeaderSaveButton s = None"
    if "\<not> truthy (selectedId s)" "js_trim (orElse (draftTitle s) (JStr '''')) = Inr []"
    using that by (simp add: invokeSave_def headerSaveDisabled_def)
  have noedits: "invokeSave api now HeaderSaveButton s = None"
    if "truthy (selectedId s)" "\<not> hasEdits s"
    using that by (simp add: invokeSave_def headerSaveDisabled_def)
  have same: "invokeSave api now HeaderSaveButton s = None"
    if "truthy (selectedId s)" "selected s = Some n" "draftTitle s = title n"
       "draftContent s = content n"
    using noedits [OF that(1) hasEdits_identical [OF that(2,3,4)]] .
  show ?thesis
    using inflight blank noedits same handleSave_blank_title [where api = api and now = now and s = s]
    by blast
qed

theorem save_guards_witness:
  "isSaving (stateAB\<lparr>isSaving := True\<rparr>)
   \<and> invokeSave okApi (fixedClock 0) HeaderSaveButton (stateAB\<lparr>isSaving := True\<rparr>) = None
   \<and> invokeSave okApi (fixedClock 0) EditorFormSubmit (stateAB\<lparr>isSaving := True\<rparr>) = None
   \<and> \<not> truthy (selectedId stateBlank)
   \<and> js_trim (orElse (draftTitle stateBlank) (JStr '''')) = Inr []
   \<and> invokeSave okApi (fixedClock 0) HeaderSaveButton stateBlank = None
   \<and> calls (handleSave okApi (fixedClock 0) stateBlank) = []
   \<and> truthy (selectedId stateAB) \<and> \<not> hasEdits stateAB \<and> selected stateAB = Some noteA
   \<and> draftTitle stateAB = title noteA \<and> draftContent stateAB = content noteA
   \<and> invokeSave okApi (fixedClock 0) HeaderSaveButton stateAB = None"
proof -
  have sel: "selected stateAB = Some noteA"
    by (simp add: selected_def stateAB_def noteA_def)
  have same: "draftTitle stateAB = title noteA" "draftContent stateAB = content noteA"
    "truthy (selectedId stateAB)"
    by (simp_all add: stateAB_def noteA_def)
  have noedits: "\<not> hasEdits stateAB"
    by (rule hasEdits_identical [OF sel same(1,2)])
  have trimBlank: "js_trim (orElse (draftTitle stateBlank) (JStr '''')) = Inr ''''"
    by (simp add: stateBlank_def orElse_def trim_def trimStart_def trimEnd_def isWhiteSpace_def)
  have nosel: "\<not> truthy (selectedId stateBlank)" by (simp add: stateBlank_def)
  have busy: "isSaving (stateAB\<lparr>isSaving := True\<rparr>)" by simp
  from save_guards [where s = "stateAB\<lparr>isSaving := True\<rparr>" and api = okApi and now = "fixedClock 0"] busy
  have g1: "invokeSave okApi (fixedClock 0) HeaderSaveButton (stateAB\<lparr>isSaving := True\<rparr>) = None"
    "invokeSave okApi (fixedClock 0) EditorFormSubmit (stateAB\<lparr>isSaving := True\<rparr>) = None"
    by blast+
  from save_guards [where s = stateBlank and api = okApi and now = "fixedClock 0"] nosel trimBlank
  have g2: "invokeSave okApi (fixedClock 0) HeaderSaveButton stateBlank = None"
    "calls (handleSave okApi (fixedClock 0) stateBlank) = []"
    by blast+
  from save_guards [where s = stateAB and api = okApi and now = "fixedClock 0" and n = noteA]
    same sel noedits
  have g3: "invokeSave okApi (fixedClock 0) HeaderSaveButton stateAB = None"
    by blast
  show ?thesis
    using busy g1 nosel trimBlank g2 same noedits sel g3 by simp
qed



section \<open>The visible list is sorted before it is filtered\<close>

text \<open>The engine's sort, for a comparator that is the difference of a key: the binary
  search finds the end of the elements whose key is not below the pivot's.\<close>

lemma insertionPoint_spec:
  assumes "\<forall>e\<in>set xs. cmp pivot e = key e - key pivot"
      and "sorted_wrt (\<lambda>a b. key b \<le> key a) xs"
      and "left \<le> right" and "right \<le> length xs"
      and "\<forall>i<left. key pivot \<le> key (xs ! i)"
      and "\<forall>i. right \<le> i \<and> i < length xs \<longrightarrow> key (xs ! i) < key pivot"
  shows "left \<le> insertionPoint cmp pivot xs left right
         \<and> insertionPoint cmp pivot xs left right \<le> right
         \<and> (\<forall>i<insertionPoint cmp pivot xs left right. key pivot \<le> key (xs ! i))
         \<and> (\<forall>i. insertionPoint cmp pivot xs left right \<le> i \<and> i < length xs
                \<longrightarrow> key (xs ! i) < key pivot)"
  using assms
proof (induction cmp pivot xs left right rule: insertionPoint.induct)
  case (1 cmp pivot xs left right)
  let ?mid = "left + (right - left) div 2"
  show ?case
  proof (cases "left < right")
    case False
    then have "insertionPoint cmp pivot xs left right = left"
      by (simp add: insertionPoint.simps [of cmp pivot xs left right])
    with False "1.prems" show ?thesis
      by simp
  next
    case True
    have mid: "left \<le> ?mid" "?mid < right" "?mid < length xs"
      using True "1.prems"(4) by simp_all
    have c: "cmp pivot (xs ! ?mid) = key (xs ! ?mid) - key pivot"
      using "1.prems"(1) mid(3) by simp
    show ?thesis
    proof (cases "cmp pivot (xs ! ?mid) < 0")
      case lt: True
      have hi: "\<forall>i. ?mid \<le> i \<and> i < length xs \<longrightarrow> key (xs ! i) < key pivot"
      proof (intro allI impI)
        fix i assume i: "?mid \<le> i \<and> i < length xs"
        have "key (xs ! i) \<le> key (xs ! ?mid)"
        proof (cases "i = ?mid")
          case True then show ?thesis by simp
        next
          case False
          with i have "?mid < i" by simp
          with "1.prems"(2) i show ?thesis by (simp add: sorted_wrt_iff_nth_less)
        qed
        with lt c show "key (xs ! i) < key pivot" by simp
      qed
      have eq: "insertionPoint cmp pivot xs left right = insertionPoint cmp pivot xs left ?mid"
        using True lt by (simp add: insertionPoint.simps [of cmp pivot xs left right] Let_def)
      from "1.IH"(1) [OF True refl lt "1.prems"(1,2) mid(1) _ "1.prems"(5) hi] mid
      have "left \<le> insertionPoint cmp pivot xs left ?mid
         \<and> insertionPoint cmp pivot xs left ?mid \<le> ?mid
         \<and> (\<forall>i<insertionPoint cmp pivot xs left ?mid. key pivot \<le> key (xs ! i))
         \<and> (\<forall>i. insertionPoint cmp pivot xs left ?mid \<le> i \<and> i < length xs
                \<longrightarrow> key (xs ! i) < key pivot)"
        by simp
      with eq mid show ?thesis by simp
    next
      case ge: False
      have lo: "\<forall>i<?mid + 1. key pivot \<le> key (xs ! i)"
      proof (intro allI impI)
        fix i assume i: "i < ?mid + 1"
        have "key (xs ! ?mid) \<le> key (xs ! i)"
        proof (cases "i = ?mid")
          case True then show ?thesis by simp
        next
          case False
          with i have "i < ?mid" by simp
          with "1.prems"(2) mid(3) show ?thesis by (simp add: sorted_wrt_iff_nth_less)
        qed
        with ge c show "key pivot \<le> key (xs ! i)" by simp
      qed
      have eq: "insertionPoint cmp pivot xs left right = insertionPoint cmp pivot xs (?mid + 1) right"
        using True ge by (simp add: insertionPoint.simps [of cmp pivot xs left right] Let_def)
      from "1.IH"(2) [OF True refl ge "1.prems"(1,2) _ "1.prems"(4) lo "1.prems"(6)] mid
      have "?mid + 1 \<le> insertionPoint cmp pivot xs (?mid + 1) right
         \<and> insertionPoint cmp pivot xs (?mid + 1) right \<le> right
         \<and> (\<forall>i<insertionPoint cmp pivot xs (?mid + 1) right. key pivot \<le> key (xs ! i))
         \<and> (\<forall>i. insertionPoint cmp pivot xs (?mid + 1) right \<le> i \<and> i < length xs
                \<longrightarrow> key (xs ! i) < key pivot)"
        by simp
      with eq mid show ?thesis by simp
    qed
  qed
qed

lemma binaryInsert_props:
  assumes "\<forall>e\<in>set xs. cmp pivot e = key e - key pivot"
      and "sorted_wrt (\<lambda>a b. key b \<le> key a) xs"
  shows "sorted_wrt (\<lambda>a b. key b \<le> key a) (binaryInsert cmp pivot xs)"
    and "mset (binaryInsert cmp pivot xs) = add_mset pivot (mset xs)"
    and "filter (\<lambda>n. key n = k) (binaryInsert cmp pivot xs) =
           filter (\<lambda>n. key n = k) xs @ (if key pivot = k then [pivot] else [])"
proof -
  define p where "p = insertionPoint cmp pivot xs 0 (length xs)"
  from insertionPoint_spec [where cmp = cmp and key = key and pivot = pivot and xs = xs
      and left = 0 and right = "length xs", OF assms]
  have p: "p \<le> length xs" "\<forall>i<p. key pivot \<le> key (xs ! i)"
    "\<forall>i. p \<le> i \<and> i < length xs \<longrightarrow> key (xs ! i) < key pivot"
    by (simp_all add: p_def)
  have before: "\<forall>x\<in>set (take p xs). key pivot \<le> key x"
    using p(1,2) by (auto simp: in_set_conv_nth)
  have after: "\<forall>x\<in>set (drop p xs). key x < key pivot"
    using p(1,3) by (auto simp: in_set_conv_nth)
  have ins: "binaryInsert cmp pivot xs = take p xs @ pivot # drop p xs"
    by (simp add: binaryInsert_def p_def Let_def)
  have cross: "\<forall>x\<in>set (take p xs). \<forall>y\<in>set (drop p xs). key y \<le> key x"
    using before after by force
  have "sorted_wrt (\<lambda>a b. key b \<le> key a) (take p xs)"
    and "sorted_wrt (\<lambda>a b. key b \<le> key a) (drop p xs)"
    using assms(2) by (simp_all add: sorted_wrt_take sorted_wrt_drop)
  with before after cross
  show "sorted_wrt (\<lambda>a b. key b \<le> key a) (binaryInsert cmp pivot xs)"
    unfolding ins by (simp add: sorted_wrt_append less_imp_le)
  have "mset (take p xs) + mset (drop p xs) = mset xs"
    by (metis append_take_drop_id mset_append)
  then show "mset (binaryInsert cmp pivot xs) = add_mset pivot (mset xs)"
    unfolding ins by simp
  have none: "filter (\<lambda>n. key n = k) (drop p xs) = []" if "key pivot = k"
    using after that by (auto simp: filter_empty_conv)
  have "filter (\<lambda>n. key n = k) (take p xs) @ filter (\<lambda>n. key n = k) (drop p xs)
      = filter (\<lambda>n. key n = k) xs"
    by (metis append_take_drop_id filter_append)
  then show "filter (\<lambda>n. key n = k) (binaryInsert cmp pivot xs) =
           filter (\<lambda>n. key n = k) xs @ (if key pivot = k then [pivot] else [])"
    unfolding ins using none by auto
qed

lemma set_binaryInsert: "set (binaryInsert cmp pivot xs) = insert pivot (set xs)"
proof -
  have "set (take p xs) \<union> set (drop p xs) = set xs" for p
    by (metis append_take_drop_id set_append)
  then show ?thesis
    by (auto simp: binaryInsert_def Let_def)
qed

lemma binaryInsertionSort_props:
  assumes "keyed cmp key (set run \<union> set rest)"
      and "sorted_wrt (\<lambda>a b. key b \<le> key a) run"
  shows "sorted_wrt (\<lambda>a b. key b \<le> key a) (binaryInsertionSort cmp run rest)
         \<and> mset (binaryInsertionSort cmp run rest) = mset run + mset rest
         \<and> filter (\<lambda>n. key n = k) (binaryInsertionSort cmp run rest) =
             filter (\<lambda>n. key n = k) run @ filter (\<lambda>n. key n = k) rest"
  using assms
proof (induction rest arbitrary: run)
  case Nil
  then show ?case by simp
next
  case (Cons pivot rest)
  have c: "\<forall>e\<in>set run. cmp pivot e = key e - key pivot"
    using Cons.prems(1) by (simp add: keyed_def)
  note ins = binaryInsert_props(1,2) [where cmp = cmp and key = key and pivot = pivot and xs = run,
      OF c Cons.prems(2)]
    binaryInsert_props(3) [where cmp = cmp and key = key and pivot = pivot and xs = run and k = k,
      OF c Cons.prems(2)]
  have "keyed cmp key (set (binaryInsert cmp pivot run) \<union> set rest)"
    using Cons.prems(1) by (simp add: set_binaryInsert keyed_def)
  from Cons.IH [OF this ins(1)] show ?case
    by (simp add: ins(2,3))
qed

lemma extendRun_append:
  "extendRun cmp d previous ys = (run, remaining) \<Longrightarrow> run @ remaining = ys"
proof (induction ys arbitrary: previous run remaining)
  case Nil
  then show ?case by simp
next
  case (Cons y ys)
  then show ?case
    by (auto split: if_splits prod.splits)
qed

lemma extendRun_ascending:
  assumes "extendRun cmp False previous ys = (run, remaining)"
      and "keyed cmp key (insert previous (set ys))"
  shows "sorted_wrt (\<lambda>a b. key b \<le> key a) (previous # run)"
  using assms
proof (induction ys arbitrary: previous run remaining)
  case Nil
  then show ?case by simp
next
  case (Cons y ys)
  show ?case
  proof (cases "cmp y previous < 0")
    case True
    with Cons.prems(1) show ?thesis by simp
  next
    case False
    obtain run' where r: "extendRun cmp False y ys = (run', remaining)" and run: "run = y # run'"
      using Cons.prems(1) False by (auto split: prod.splits)
    have k: "keyed cmp key (insert y (set ys))"
      using Cons.prems(2) by (simp add: keyed_def)
    have "cmp y previous = key previous - key y"
      using Cons.prems(2) by (simp add: keyed_def)
    with False have le: "key y \<le> key previous" by simp
    from Cons.IH [OF r k] have s: "sorted_wrt (\<lambda>a b. key b \<le> key a) (y # run')" .
    with le show ?thesis
      unfolding run by (auto intro: order_trans)
  qed
qed

lemma extendRun_descending:
  assumes "extendRun cmp True previous ys = (run, remaining)"
      and "keyed cmp key (insert previous (set ys))"
  shows "sorted_wrt (\<lambda>a b. key a < key b) (previous # run)"
  using assms
proof (induction ys arbitrary: previous run remaining)
  case Nil
  then show ?case by simp
next
  case (Cons y ys)
  show ?case
  proof (cases "0 \<le> cmp y previous")
    case True
    with Cons.prems(1) show ?thesis by simp
  next
    case False
    obtain run' where r: "extendRun cmp True y ys = (run', remaining)" and run: "run = y # run'"
      using Cons.prems(1) False by (auto split: prod.splits)
    have k: "keyed cmp key (insert y (set ys))"
      using Cons.prems(2) by (simp add: keyed_def)
    have "cmp y previous = key previous - key y"
      using Cons.prems(2) by (simp add: keyed_def)
    with False have lt: "key previous < key y" by simp
    from Cons.IH [OF r k] have s: "sorted_wrt (\<lambda>a b. key a < key b) (y # run')" .
    with lt show ?thesis
      unfolding run by (auto intro: less_trans)
  qed
qed

lemma strict_filter_rev:
  assumes "sorted_wrt (\<lambda>a b. key a < (key b :: int)) xs"
  shows "filter (\<lambda>n. key n = k) (rev xs) = filter (\<lambda>n. key n = k) xs"
proof -
  have "length (filter (\<lambda>n. key n = k) xs) \<le> 1"
    using assms
  proof (induction xs)
    case Nil
    then show ?case by simp
  next
    case (Cons x xs)
    show ?case
    proof (cases "key x = k")
      case True
      with Cons.prems have "filter (\<lambda>n. key n = k) xs = []"
        by (auto simp: filter_empty_conv)
      with True show ?thesis by simp
    next
      case False
      with Cons show ?thesis by simp
    qed
  qed
  then have "rev (filter (\<lambda>n. key n = k) xs) = filter (\<lambda>n. key n = k) xs"
    by (cases "filter (\<lambda>n. key n = k) xs") (auto simp: Suc_le_eq)
  then show ?thesis
    by (simp add: rev_filter)
qed

lemma countAndMakeRun_props:
  assumes "countAndMakeRun cmp xs = (run, remaining)" and "keyed cmp key (set xs)"
  shows "sorted_wrt (\<lambda>a b. key b \<le> key a) run
         \<and> mset run + mset remaining = mset xs
         \<and> filter (\<lambda>n. key n = k) run @ filter (\<lambda>n. key n = k) remaining
             = filter (\<lambda>n. key n = k) xs"
proof (cases xs)
  case Nil
  with assms(1) show ?thesis by auto
next
  case (Cons x0 tl)
  show ?thesis
  proof (cases tl)
    case Nil
    with Cons assms(1) show ?thesis by auto
  next
    case (Cons x1 rest)
    with \<open>xs = x0 # tl\<close> have xs: "xs = x0 # x1 # rest" by simp
    obtain r where er: "extendRun cmp (cmp x1 x0 < 0) x1 rest = (r, remaining)"
      and run: "run = (if cmp x1 x0 < 0 then rev (x0 # x1 # r) else x0 # x1 # r)"
      using assms(1) unfolding xs by (auto simp: Let_def split: prod.splits)
    have app: "r @ remaining = rest"
      by (rule extendRun_append [OF er])
    have k1: "keyed cmp key (insert x1 (set rest))"
      using assms(2) unfolding xs by (simp add: keyed_def)
    have c: "cmp x1 x0 = key x0 - key x1"
      using assms(2) unfolding xs by (simp add: keyed_def)
    have m: "mset (x0 # x1 # r) + mset remaining = mset xs"
      unfolding xs app [symmetric] by simp
    have f: "filter (\<lambda>n. key n = k) (x0 # x1 # r) @ filter (\<lambda>n. key n = k) remaining
        = filter (\<lambda>n. key n = k) xs"
      unfolding xs app [symmetric] by simp
    show ?thesis
    proof (cases "cmp x1 x0 < 0")
      case True
      with er have "extendRun cmp True x1 rest = (r, remaining)" by simp
      from extendRun_descending [where cmp = cmp and key = key, OF this k1]
      have "sorted_wrt (\<lambda>a b. key a < key b) (x1 # r)" .
      with True c have strict: "sorted_wrt (\<lambda>a b. key a < key b) (x0 # x1 # r)"
        by (auto intro: less_trans)
      then have "sorted_wrt (\<lambda>a b. key b < key a) (rev (x0 # x1 # r))"
        unfolding sorted_wrt_rev .
      then have s: "sorted_wrt (\<lambda>a b. key b \<le> key a) (rev (x0 # x1 # r))"
        by (rule sorted_wrt_mono_rel [rotated]) simp
      have fr: "filter (\<lambda>n. key n = k) (rev (x0 # x1 # r)) = filter (\<lambda>n. key n = k) (x0 # x1 # r)"
        by (rule strict_filter_rev [OF strict])
      have mr: "mset (rev (x0 # x1 # r)) + mset remaining = mset xs"
        using m by (simp add: add_mset_commute)
      from s mr f show ?thesis
        unfolding run using True by (simp only: if_True fr)
    next
      case False
      with er have "extendRun cmp False x1 rest = (r, remaining)" by simp
      from extendRun_ascending [where cmp = cmp and key = key, OF this k1]
      have "sorted_wrt (\<lambda>a b. key b \<le> key a) (x1 # r)" .
      with False c have s: "sorted_wrt (\<lambda>a b. key b \<le> key a) (x0 # x1 # r)"
        by (auto intro: order_trans)
      from s m f show ?thesis
        unfolding run using False by simp
    qed
  qed
qed

lemma arraySort_props:
  assumes "keyed cmp key (set xs)"
  shows "sorted_wrt (\<lambda>a b. key b \<le> key a) (arraySort cmp xs)
         \<and> mset (arraySort cmp xs) = mset xs
         \<and> filter (\<lambda>n. key n = k) (arraySort cmp xs) = filter (\<lambda>n. key n = k) xs"
proof -
  obtain run remaining where cr: "countAndMakeRun cmp xs = (run, remaining)"
    by (cases "countAndMakeRun cmp xs")
  note r = countAndMakeRun_props [where cmp = cmp and key = key and k = k, OF cr assms]
  have "set_mset (mset run + mset remaining) = set_mset (mset xs)"
    using r by simp
  then have "set run \<union> set remaining = set xs" by simp
  with assms have k: "keyed cmp key (set run \<union> set remaining)" by simp
  from binaryInsertionSort_props [where cmp = cmp and key = key and k = k, OF k] r show ?thesis
    by (simp add: arraySort_def cr)
qed

lemma matchesQuery_text:
  assumes "isText (title n)" and "isText (content n)"
  shows "matchesQuery q n = Inr (textMatches q n)"
proof -
  have low: "js_toLowerCase (orElse v (JStr '''')) = Inr (toLowerCase (textOf v))" if "isText v" for v
    using that by (cases v) (auto simp: orElse_def toLowerCase_def)
  show ?thesis
    by (simp add: matchesQuery_def textMatches_def low [OF assms(1)] low [OF assms(2)])
qed

lemma filterNotes_text:
  assumes "\<forall>n\<in>set ns. isText (title n) \<and> isText (content n)"
  shows "filterNotes (matchesQuery q) ns = Inr (filter (textMatches q) ns)"
  using assms by (induction ns) (simp_all add: matchesQuery_text)

lemma sortNewestFirst_keyed:
  assumes "\<forall>n\<in>set ns. noteTime getTime n = Some (tm n)"
  shows "keyed (\<lambda>a b. nanAsZero (compareNewest getTime a b)) tm (set ns)"
  using assms by (simp add: keyed_def compareNewest_def nanAsZero_def)

lemma sortNewestFirst_three_in_place:
  assumes "nanAsZero (compareNewest getTime y x) = 0"
      and "nanAsZero (compareNewest getTime z y) = 0"
  shows "sortNewestFirst getTime [x, y, z] = [x, y, z]"
  using assms by (simp add: sortNewestFirst_def arraySort_def)

text \<open>
  C6, as stated, fails at three collections. With notes B, G, A, where G's \<^verbatim>\<open>updatedAt\<close>
  is no date and B is older than A, every comparison with G gives NaN, the sort leaves
  the list as it is, and the visible list shows B before A. With a note whose title is
  a number and a query, the filter throws and there is no visible list. With a note
  whose \<^verbatim>\<open>updatedAt\<close> is the number 0 and whose \<^verbatim>\<open>createdAt\<close> is 100, the note is placed by
  100, before a note whose \<^verbatim>\<open>updatedAt\<close> is 50.
\<close>

theorem visible_list_not_sorted:
  "demoTime (updatedAt noteB) = Some 1714554000000
   \<and> demoTime (updatedAt noteG) = None
   \<and> demoTime (updatedAt noteA) = Some 1714636800000
   \<and> sortNewestFirst demoTime [noteB, noteG, noteA] = [noteB, noteG, noteA]
   \<and> filteredNotes demoTime '''' [noteB, noteG, noteA] = Inr [noteB, noteG, noteA]
   \<and> isl (filteredNotes demoTime ''a'' [noteA, noteN])
   \<and> demoTime (updatedAt noteZ) = Some 0
   \<and> demoTime (updatedAt noteY) = Some 50
   \<and> filteredNotes demoTime '''' [noteY, noteZ] = Inr [noteZ, noteY]"
proof -
  have tA: "noteTime demoTime noteA = Some 1714636800000"
    and tB: "noteTime demoTime noteB = Some 1714554000000"
    and tG: "noteTime demoTime noteG = None"
    and tN: "noteTime demoTime noteN = Some 1714550400000"
    and tZ: "noteTime demoTime noteZ = Some 100"
    and tY: "noteTime demoTime noteY = Some 50"
    by (simp_all add: noteTime_def demoTime_def noteA_def noteB_def noteG_def noteN_def
        noteZ_def noteY_def orElse_def)
  have dates: "demoTime (updatedAt noteB) = Some 1714554000000"
    "demoTime (updatedAt noteG) = None"
    "demoTime (updatedAt noteA) = Some 1714636800000"
    "demoTime (updatedAt noteZ) = Some 0"
    "demoTime (updatedAt noteY) = Some 50"
    by (simp_all add: demoTime_def noteA_def noteB_def noteG_def noteZ_def noteY_def)
  have blank: "toLowerCase (trim '''') = []"
    by (simp add: toLowerCase_def trim_def trimStart_def trimEnd_def)
  have qa: "toLowerCase (trim ''a'') = ''a''"
    by code_simp
  have s1: "sortNewestFirst demoTime [noteB, noteG, noteA] = [noteB, noteG, noteA]"
    by (rule sortNewestFirst_three_in_place) (simp_all add: compareNewest_def nanAsZero_def tG tA tB)
  have s2: "sortNewestFirst demoTime [noteA, noteN] = [noteA, noteN]"
    by (simp add: sortNewestFirst_def arraySort_def compareNewest_def nanAsZero_def tA tN)
  have s3: "sortNewestFirst demoTime [noteY, noteZ] = [noteZ, noteY]"
    by (simp add: sortNewestFirst_def arraySort_def compareNewest_def nanAsZero_def tZ tY)
  have mA: "matchesQuery ''a'' noteA = Inr True"
    by (simp add: matchesQuery_def noteA_def orElse_def) code_simp
  have mN: "matchesQuery ''a'' noteN
      = Inl (mkTypeError ''(intermediate value).toLowerCase is not a function'')"
    by (simp add: matchesQuery_def noteN_def orElse_def)
  have thrown: "isl (filteredNotes demoTime ''a'' [noteA, noteN])"
    by (simp add: filteredNotes_def qa s2 mA mN)
  from dates s1 s3 thrown show ?thesis
    by (simp add: filteredNotes_def blank)
qed

text \<open>
  C6, amended. Take any reading of dates and a collection in which every note's timestamp
  (\<^verbatim>\<open>updatedAt\<close>, else \<^verbatim>\<open>createdAt\<close>, else 0, the first that is truthy) is a valid date with
  time \<open>tm\<close>. Then for every search text the page first sorts the whole collection: the
  sorted base is a rearrangement of the collection, non-increasing in \<open>tm\<close>, with notes of
  equal time in their old order. The visible list is that base when the trimmed query is
  empty, and, when every title and content is text, the base filtered by the query, so
  the filter never changes the order. The timestamp of a note whose \<^verbatim>\<open>updatedAt\<close> is
  truthy is its \<^verbatim>\<open>updatedAt\<close>; otherwise it is its \<^verbatim>\<open>createdAt\<close> if truthy, and 0 if not.
\<close>

theorem filteredNotes_sorted_then_filtered:
  assumes "\<forall>n\<in>set ns. noteTime getTime n = Some (tm n)"
  shows "mset (sortNewestFirst getTime ns) = mset ns
         \<and> sorted_wrt (\<lambda>a b. tm b \<le> tm a) (sortNewestFirst getTime ns)
         \<and> (\<forall>k. filter (\<lambda>n. tm n = k) (sortNewestFirst getTime ns) = filter (\<lambda>n. tm n = k) ns)
         \<and> (toLowerCase (trim q) = [] \<longrightarrow>
              filteredNotes getTime q ns = Inr (sortNewestFirst getTime ns))
         \<and> ((\<forall>n\<in>set ns. isText (title n) \<and> isText (content n)) \<longrightarrow>
              filteredNotes getTime q ns
                = Inr (filter (textMatches (toLowerCase (trim q))) (sortNewestFirst getTime ns)))
         \<and> (\<forall>n. noteTime getTime n =
               (if truthy (updatedAt n) then getTime (updatedAt n)
                else if truthy (createdAt n) then getTime (createdAt n)
                else getTime (JNum 0)))"
proof -
  let ?cmp = "\<lambda>a b. nanAsZero (compareNewest getTime a b)"
  let ?base = "sortNewestFirst getTime ns"
  note kd = sortNewestFirst_keyed [OF assms]
  have props: "sorted_wrt (\<lambda>a b. tm b \<le> tm a) ?base \<and> mset ?base = mset ns
      \<and> filter (\<lambda>n. tm n = k) ?base = filter (\<lambda>n. tm n = k) ns" for k
    unfolding sortNewestFirst_def
    by (rule arraySort_props [where cmp = ?cmp and key = tm and k = k, OF kd])
  have perm: "mset ?base = mset ns" and desc: "sorted_wrt (\<lambda>a b. tm b \<le> tm a) ?base"
    using props by blast+
  have stable: "filter (\<lambda>n. tm n = k) ?base = filter (\<lambda>n. tm n = k) ns" for k
    using props by blast
  have members: "set ?base = set ns"
    using perm by (metis set_mset_mset)
  have unfiltered: "filteredNotes getTime q ns = Inr ?base" if "toLowerCase (trim q) = []"
    using that by (simp add: filteredNotes_def)
  have filtered: "filteredNotes getTime q ns
      = Inr (filter (textMatches (toLowerCase (trim q))) ?base)"
    if texts: "\<forall>n\<in>set ns. isText (title n) \<and> isText (content n)"
  proof (cases "toLowerCase (trim q) = []")
    case True
    have "includes_str s []" for s by (cases s) simp_all
    then have "filter (textMatches []) ?base = ?base"
      by (simp add: textMatches_def)
    with True unfiltered show ?thesis by simp
  next
    case False
    have "\<forall>n\<in>set ?base. isText (title n) \<and> isText (content n)"
      using texts by (simp add: members)
    from filterNotes_text [OF this] False show ?thesis
      by (simp add: filteredNotes_def)
  qed
  have key: "noteTime getTime n =
      (if truthy (updatedAt n) then getTime (updatedAt n)
       else if truthy (createdAt n) then getTime (createdAt n)
       else getTime (JNum 0))" for n
    by (simp add: noteTime_def orElse_def)
  from perm desc stable unfiltered filtered key show ?thesis
    by blast
qed

theorem filteredNotes_sorted_then_filtered_witness:
  "noteTime demoTime noteB = Some (demoNoteTime noteB)
   \<and> noteTime demoTime noteA = Some (demoNoteTime noteA)
   \<and> demoNoteTime noteB < demoNoteTime noteA
   \<and> isText (title noteB) \<and> isText (content noteB)
   \<and> isText (title noteA) \<and> isText (content noteA)
   \<and> sortNewestFirst demoTime [noteB, noteA] = [noteA, noteB]
   \<and> filteredNotes demoTime '''' [noteB, noteA] = Inr [noteA, noteB]
   \<and> filteredNotes demoTime '' BETA '' [noteB, noteA] = Inr [noteB]"
proof -
  have tA: "noteTime demoTime noteA = Some 1714636800000"
    and tB: "noteTime demoTime noteB = Some 1714554000000"
    by (simp_all add: noteTime_def demoTime_def noteA_def noteB_def orElse_def)
  have times: "\<forall>n\<in>set [noteB, noteA]. noteTime demoTime n = Some (demoNoteTime n)"
    by (simp add: demoNoteTime_def tA tB)
  have texts: "\<forall>n\<in>set [noteB, noteA]. isText (title n) \<and> isText (content n)"
    by (simp add: noteA_def noteB_def)
  have srt: "sortNewestFirst demoTime [noteB, noteA] = [noteA, noteB]"
    by (simp add: sortNewestFirst_def arraySort_def compareNewest_def nanAsZero_def tA tB)
  have q1: "toLowerCase (trim '''') = []"
    by (simp add: toLowerCase_def trim_def trimStart_def trimEnd_def)
  have q2: "toLowerCase (trim '' BETA '') = ''beta''"
    by code_simp
  have m: "textMatches ''beta'' noteB" "\<not> textMatches ''beta'' noteA"
    by code_simp+
  from filteredNotes_sorted_then_filtered [OF times, of "''''"] srt q1
  have v1: "filteredNotes demoTime '''' [noteB, noteA] = Inr [noteA, noteB]"
    by auto
  from filteredNotes_sorted_then_filtered [OF times, of "'' BETA ''"] srt texts q2 m
  have v2: "filteredNotes demoTime '' BETA '' [noteB, noteA] = Inr [noteB]"
    by auto
  from times texts srt v1 v2 show ?thesis
    by (simp add: demoNoteTime_def tA tB)
qed

section \<open>The API client\<close>

lemma request_unconfigured:
  "getApiBase e = [] \<Longrightarrow> request e pf path opts = ([], Inl missingBaseError)"
  by (simp add: request_def)

lemma perform_request:
  "perform e pf c =
     (if argsRejected c
      then ([], Inl (case c of CallCreate n \<Rightarrow> invalidPayloadError
                     | CallUpdate i n \<Rightarrow> if truthy i then invalidPayloadError
                                          else mkError ''Missing note id.''
                     | _ \<Rightarrow> mkError ''Missing note id.''))
      else request e pf (opPath pf c) (opOptions pf c))"
  by (cases c)
    (simp_all add: perform_def argsRejected_def opPath_def opOptions_def listNotes_def
      createNote_def updateNote_def deleteNote_def)

lemma request_http_error:
  assumes "getApiBase e \<noteq> []"
      and "fetch pf (requestFor (getApiBase e) path opts) = Inr r"
      and "\<not> ok r"
      and "parseJsonOrText r = Inr payload"
  shows "request e pf path opts =
           ([requestFor (getApiBase e) path opts],
            Inl (mkError (''API error '' @ decimal (status r) @ '' '' @ statusText r @ '': ''
              @ (case payload of JStr t \<Rightarrow> t | _ \<Rightarrow> stringify pf payload))))"
  using assms by (simp add: request_def Let_def)

lemma request_undecodable_error_body:
  assumes "getApiBase e \<noteq> []"
      and "fetch pf (requestFor (getApiBase e) path opts) = Inr r"
      and "\<not> ok r"
      and "parseJsonOrText r = Inl err"
  shows "request e pf path opts = ([requestFor (getApiBase e) path opts], Inl err)"
  using assms by (simp add: request_def Let_def)

lemma request_no_content:
  assumes "getApiBase e \<noteq> []"
      and "fetch pf (requestFor (getApiBase e) path opts) = Inr r"
      and "status r = 204"
  shows "request e pf path opts = ([requestFor (getApiBase e) path opts], Inr JNull)"
  using assms by (simp add: request_def Let_def ok_def)

text \<open>
  C9, as stated, fails at the list operation of a configured client that is answered with
  status 500, a JSON content type and a body that is not JSON. One request is made; the
  response is not a 2xx; the operation fails with the error of \<^verbatim>\<open>response.json()\<close>, which
  carries neither the status code nor the status text, and not with the API error.
\<close>

theorem http_error_with_undecodable_body:
  "getApiBase demoEnv = ''http://api''
   \<and> \<not> ok brokenResponse
   \<and> status brokenResponse = 500
   \<and> fst (perform demoEnv brokenPlatform CallList) =
       [\<lparr> url = ''http://api/notes'', req_method = ''GET'',
          req_headers = [(''Content-Type'', ''application/json'')], req_body = None \<rparr>]
   \<and> snd (perform demoEnv brokenPlatform CallList) =
       Inl (JsError ''SyntaxError'' ''Unexpected end of JSON input'')"
proof -
  have base: "getApiBase demoEnv = ''http://api''"
    by (simp add: getApiBase_def demoEnv_def)
  have notok: "\<not> ok brokenResponse"
    by (simp add: ok_def brokenResponse_def)
  have ct: "includes_str ''application/json'' ''application/json''"
    by simp
  have body: "parseJsonOrText brokenResponse = Inl (JsError ''SyntaxError'' ''Unexpected end of JSON input'')"
    using ct by (simp add: parseJsonOrText_def brokenResponse_def)
  have "perform demoEnv brokenPlatform CallList =
      ([\<lparr> url = ''http://api/notes'', req_method = ''GET'',
          req_headers = [(''Content-Type'', ''application/json'')], req_body = None \<rparr>],
       Inl (JsError ''SyntaxError'' ''Unexpected end of JSON input''))"
    by (simp add: perform_def listNotes_def request_def requestFor_def base brokenPlatform_def
        notok body)
  with base notok show ?thesis by (simp add: brokenResponse_def)
qed

text \<open>
  C9, amended. For each of the four operations: with the base URL unset (no variable set
  to anything but slashes) the operation makes no fetch call and fails, and fails with the
  configuration error when its arguments pass its own checks. With a base URL and
  arguments that pass the checks: if the response is not a 2xx and its body can be read
  as the response declares, the operation, after its one fetch call, fails with a single
  error whose message holds the status code, the status text and the body (a string as
  it is, another value through \<^verbatim>\<open>JSON.stringify\<close>); a 204 response gives the result \<^verbatim>\<open>null\<close>.
  The body is read as JSON when the content type contains "application/json", and as text
  otherwise.
\<close>

theorem api_client_outcomes:
  "(getApiBase e = [] \<longrightarrow>
      fst (perform e pf c) = [] \<and> (\<exists>err. snd (perform e pf c) = Inl err)
      \<and> (\<not> argsRejected c \<longrightarrow> snd (perform e pf c) = Inl missingBaseError))
   \<and> (\<not> argsRejected c \<and> getApiBase e \<noteq> [] \<and> fetch pf (sentRequest e pf c) = Inr r
        \<and> \<not> ok r \<and> parseJsonOrText r = Inr payload \<longrightarrow>
      perform e pf c =
        ([sentRequest e pf c],
         Inl (mkError (''API error '' @ decimal (status r) @ '' '' @ statusText r @ '': ''
           @ (case payload of JStr t \<Rightarrow> t | _ \<Rightarrow> stringify pf payload)))))
   \<and> (\<not> argsRejected c \<and> getApiBase e \<noteq> [] \<and> fetch pf (sentRequest e pf c) = Inr r
        \<and> status r = 204 \<longrightarrow>
      perform e pf c = ([sentRequest e pf c], Inr JNull))
   \<and> (includes_str (case contentType r of None \<Rightarrow> [] | Some t \<Rightarrow> t) ''application/json'' \<longrightarrow>
      parseJsonOrText r = jsonBody r)
   \<and> (\<not> includes_str (case contentType r of None \<Rightarrow> [] | Some t \<Rightarrow> t) ''application/json''
        \<and> textBody r = Inr body \<longrightarrow>
      parseJsonOrText r = Inr (JStr body))"
proof -
  have unset: "fst (perform e pf c) = [] \<and> (\<exists>err. snd (perform e pf c) = Inl err)
      \<and> (\<not> argsRejected c \<longrightarrow> snd (perform e pf c) = Inl missingBaseError)"
    if "getApiBase e = []"
    by (simp add: perform_request request_unconfigured [OF that])
  have failed: "perform e pf c =
        ([sentRequest e pf c],
         Inl (mkError (''API error '' @ decimal (status r) @ '' '' @ statusText r @ '': ''
           @ (case payload of JStr t \<Rightarrow> t | _ \<Rightarrow> stringify pf payload))))"
    if "\<not> argsRejected c" "getApiBase e \<noteq> []" "fetch pf (sentRequest e pf c) = Inr r"
       "\<not> ok r" "parseJsonOrText r = Inr payload"
    using that request_http_error [of e pf "opPath pf c" "opOptions pf c" r payload]
    by (simp add: perform_request sentRequest_def)
  have nocontent: "perform e pf c = ([sentRequest e pf c], Inr JNull)"
    if "\<not> argsRejected c" "getApiBase e \<noteq> []" "fetch pf (sentRequest e pf c) = Inr r"
       "status r = 204"
    using that request_no_content [of e pf "opPath pf c" "opOptions pf c" r]
    by (simp add: perform_request sentRequest_def)
  have json: "parseJsonOrText r = jsonBody r"
    if "includes_str (case contentType r of None \<Rightarrow> [] | Some t \<Rightarrow> t) ''application/json''"
    using that by (simp add: parseJsonOrText_def)
  have astext: "parseJsonOrText r = Inr (JStr body)"
    if "\<not> includes_str (case contentType r of None \<Rightarrow> [] | Some t \<Rightarrow> t) ''application/json''"
       "textBody r = Inr body"
    using that by (simp add: parseJsonOrText_def)
  from unset failed nocontent json astext show ?thesis
    by blast
qed

theorem api_client_outcomes_witness:
  "getApiBase unsetEnv = []
   \<and> perform unsetEnv emptyBackend (CallUpdate (JStr ''a'') demoPayload) = ([], Inl missingBaseError)
   \<and> fst (perform unsetEnv emptyBackend (CallDelete (JStr ''''))) = []
   \<and> getApiBase demoEnv = ''http://api''
   \<and> \<not> ok notFoundResponse
   \<and> perform demoEnv emptyBackend (CallUpdate (JStr ''a'') demoPayload) =
       ([\<lparr> url = ''http://api/notes/a'', req_method = ''PUT'',
           req_headers = [(''Content-Type'', ''application/json'')], req_body = Some ''{}'' \<rparr>],
        Inl (mkError ''API error 404 Not Found: no such note''))
   \<and> perform demoEnv emptyBackend (CallDelete (JStr ''a'')) =
       ([\<lparr> url = ''http://api/notes/a'', req_method = ''DELETE'',
           req_headers = [(''Content-Type'', ''application/json'')], req_body = None \<rparr>],
        Inr JNull)"
proof -
  let ?upd = "CallUpdate (JStr ''a'') demoPayload"
  let ?del = "CallDelete (JStr ''a'')"
  have unset: "getApiBase unsetEnv = []"
    by (simp add: getApiBase_def unsetEnv_def)
  have base: "getApiBase demoEnv = ''http://api''"
    by (simp add: getApiBase_def demoEnv_def)
  have args: "\<not> argsRejected ?upd" "\<not> argsRejected ?del"
    by (simp_all add: argsRejected_def invalidPayload_def demoPayload_def optProp_def)
  have sentU: "sentRequest demoEnv emptyBackend ?upd =
      \<lparr> url = ''http://api/notes/a'', req_method = ''PUT'',
        req_headers = [(''Content-Type'', ''application/json'')], req_body = Some ''{}'' \<rparr>"
    by (simp add: sentRequest_def base requestFor_def opPath_def opOptions_def emptyBackend_def)
  have sentD: "sentRequest demoEnv emptyBackend ?del =
      \<lparr> url = ''http://api/notes/a'', req_method = ''DELETE'',
        req_headers = [(''Content-Type'', ''application/json'')], req_body = None \<rparr>"
    by (simp add: sentRequest_def base requestFor_def opPath_def opOptions_def emptyBackend_def)
  have fetchU: "fetch emptyBackend (sentRequest demoEnv emptyBackend ?upd) = Inr notFoundResponse"
    by (simp add: sentU) (simp add: emptyBackend_def)
  have fetchD: "fetch emptyBackend (sentRequest demoEnv emptyBackend ?del) = Inr noContentResponse"
    by (simp add: sentD) (simp add: emptyBackend_def)
  have notok: "\<not> ok notFoundResponse"
    by (simp add: ok_def notFoundResponse_def)
  have plain: "\<not> includes_str ''text/plain'' ''application/json''"
    by simp
  have body: "parseJsonOrText notFoundResponse = Inr (JStr ''no such note'')"
    using plain by (simp add: parseJsonOrText_def notFoundResponse_def)
  have dec: "decimal 404 = ''404''"
    by code_simp
  have s204: "status noContentResponse = 204"
    by (simp add: noContentResponse_def)
  from api_client_outcomes [of unsetEnv emptyBackend ?upd] unset args
  have w1: "perform unsetEnv emptyBackend ?upd = ([], Inl missingBaseError)"
    by (metis prod.collapse)
  from api_client_outcomes [of unsetEnv emptyBackend "CallDelete (JStr '''')"] unset
  have w2: "fst (perform unsetEnv emptyBackend (CallDelete (JStr ''''))) = []"
    by blast
  from api_client_outcomes [of demoEnv emptyBackend ?upd notFoundResponse "JStr ''no such note''"]
    args base fetchU notok body
  have w3: "perform demoEnv emptyBackend ?upd =
      ([sentRequest demoEnv emptyBackend ?upd],
       Inl (mkError (''API error '' @ decimal (status notFoundResponse) @ '' ''
         @ statusText notFoundResponse @ '': '' @ ''no such note'')))"
    by simp
  from api_client_outcomes [of demoEnv emptyBackend ?del noContentResponse] args base fetchD s204
  have w4: "perform demoEnv emptyBackend ?del = ([sentRequest demoEnv emptyBackend ?del], Inr JNull)"
    by simp
  from unset w1 w2 base notok w3 w4 show ?thesis
    by (simp add: sentU sentD dec notFoundResponse_def)
qed

end
